theory Spec2Isabelle
  imports Complex_Main "HOL-Library.Multiset" "HOL-Library.Sublist"
begin

section \<open>Data model (types.ts)\<close>

text \<open>
  The messages of the \<^verbatim>\<open>ErrorMessage\<close> enum. Every \<^verbatim>\<open>throw new Error(ErrorMessage.X)\<close>
  of the source is the value \<open>Inl (Thrown X)\<close> of the model. A read of a property of
  \<^verbatim>\<open>undefined\<close>, which JavaScript answers with a \<^verbatim>\<open>TypeError\<close>, is \<open>Inl TypeError\<close>.
\<close>

datatype ErrorMessage =
    NO_API_KEY
  | NO_LOCATION
  | FAILED_OPENSTREETMAP_REQUEST
  | UNKNOWN_GEOJSON_TYPE
  | NO_COORDINATES_FOUND

datatype error = Thrown ErrorMessage | TypeError

datatype GoogleLocationTargetType =
    City | Municipality | Neighborhood | District | County | Region | City_Region
  | Borough | Province | University | Airport | State | Country | Department
  | Territory | Canton | Autonomous_Community | Union_Territory | Prefecture
  | Governorate | Postal_Code | Congressional_District | TV_Region | Okrug
  | National_Park

record Location =
  canonical_name :: string
  target_type :: "GoogleLocationTargetType option"

text \<open>
  A JavaScript number is an IEEE 754 double. The model computes with real numbers and
  rounds the result of every subtraction, sum, square, square root and quotient with a
  function \<open>rnd\<close>, a parameter of every function that computes: \<open>binary64\<close> is the
  rounding to the nearest double (ties to the even significand), \<open>exact\<close> the identity
  of exact arithmetic. The exponent of a double is taken unbounded, so overflow, subnormal
  numbers, the infinities and \<^verbatim>\<open>NaN\<close> are outside the model; the one division by zero
  the program can do is written out where it happens.
\<close>

definition roundHalfEven :: "real \<Rightarrow> int" where
  "roundHalfEven x =
     (let n = \<lfloor>x\<rfloor>; r = x - of_int n
      in if r < 1 / 2 then n else if 1 / 2 < r then n + 1 else if even n then n else n + 1)"

definition binary64 :: "real \<Rightarrow> real" where
  "binary64 x =
     (if x = 0 then 0
      else (let e = \<lfloor>log 2 \<bar>x\<bar>\<rfloor>; ulp = 2 powi (e - 52)
            in of_int (roundHalfEven (x / ulp)) * ulp))"

definition exact :: "real \<Rightarrow> real" where
  "exact x = x"

text \<open>
  A raw coordinate is the GeoJSON position \<^verbatim>\<open>[longitude, latitude]\<close>; a ring is the list
  of its positions.
\<close>

type_synonym position = "real \<times> real"

type_synonym ring = "position list"

record Coordinate =
  longitude :: real
  latitude :: real
  distance :: real

text \<open>
  The tagged union \<^verbatim>\<open>OpenStreetMapGeoJson\<close>. The source compares the tag with the four
  members of \<^verbatim>\<open>OpenStreetMapLocationType\<close> and throws on any other string, so the model
  has a fifth constructor for a tag that is none of them.
\<close>

datatype OpenStreetMapGeoJson =
    Point "real list"
  | Polygon "ring list"
  | LineString "ring list"
  | MultiPolygon "ring list list"
  | UnknownType string

record OpenStreetMapResponse =
  geojson :: "OpenStreetMapGeoJson option"

text \<open>
  The exported, mutable object \<^verbatim>\<open>constants\<close>. The tests overwrite its fields, so the
  model passes it to every function that reads it.
\<close>

record constants =
  DISTANCE_INTERVAL_FREQUENCY :: nat
  MAX_POLYGON_COUNT :: nat

definition default_constants :: constants where
  "default_constants = \<lparr>DISTANCE_INTERVAL_FREQUENCY = 200, MAX_POLYGON_COUNT = 10\<rparr>"

section \<open>Distance estimator\<close>

text \<open>
  \<^verbatim>\<open>Math.abs\<close> is exact; the differences, the two squares of \<^verbatim>\<open>Math.pow\<close>, their sum
  and the root of \<^verbatim>\<open>Math.sqrt\<close> are each rounded.
\<close>

definition calculateCoordinateSeparation ::
  "(real \<Rightarrow> real) \<Rightarrow> position \<Rightarrow> position \<Rightarrow> real" where
  "calculateCoordinateSeparation rnd coordinateA coordinateB =
     (let longitudinallDifference = \<bar>rnd (fst coordinateA - fst coordinateB)\<bar>;
          latitudinalDifference = \<bar>rnd (snd coordinateA - snd coordinateB)\<bar>
      in rnd (sqrt (rnd (rnd (longitudinallDifference ^ 2) + rnd (latitudinalDifference ^ 2)))))"

section \<open>Coordinate condenser\<close>

text \<open>
  The first loop of the callback: for \<open>i = 1 .. length - 1\<close> it computes the separation of
  \<open>polygon[i]\<close> from \<open>polygon[i - 1]\<close>, adds it to \<open>totalDistance\<close> and pushes the
  coordinate with that distance. The state is the pair
  \<open>(totalDistance, coordinatesWithDistances)\<close>; \<open>prev\<close> is \<open>polygon[i - 1]\<close>.
\<close>

fun distanceLoop ::
  "(real \<Rightarrow> real) \<Rightarrow> position \<Rightarrow> position list \<Rightarrow> real \<times> Coordinate list
     \<Rightarrow> real \<times> Coordinate list" where
  "distanceLoop rnd prev [] st = st"
| "distanceLoop rnd prev (coordinateA # rest) (totalDistance, coordinatesWithDistances) =
     (let d = calculateCoordinateSeparation rnd coordinateA prev
      in distanceLoop rnd coordinateA rest
           (rnd (totalDistance + d),
            coordinatesWithDistances
              @ [\<lparr>longitude = fst coordinateA, latitude = snd coordinateA, distance = d\<rparr>]))"

text \<open>
  The frequency of a ring: \<open>DISTANCE_INTERVAL_FREQUENCY\<close>, but 10 for a ring of a
  MultiPolygon at an index greater than 1.
\<close>

definition frequency :: "constants \<Rightarrow> bool \<Rightarrow> nat \<Rightarrow> nat" where
  "frequency c isMultiPolygon index =
     (if isMultiPolygon \<and> index > 1 then 10 else DISTANCE_INTERVAL_FREQUENCY c)"

text \<open>
  The test \<^verbatim>\<open>distanceAccumulator > distanceInterval\<close>, where
  \<^verbatim>\<open>distanceInterval = totalDistance / distance_interval_frequency\<close>. A JavaScript
  division by 0 gives \<^verbatim>\<open>Infinity\<close> or \<^verbatim>\<open>NaN\<close>, and no number is greater than either;
  HOL's \<open>x / 0 = 0\<close> would say otherwise, so the case is written out.
\<close>

definition exceedsInterval :: "(real \<Rightarrow> real) \<Rightarrow> real \<Rightarrow> real \<Rightarrow> nat \<Rightarrow> bool" where
  "exceedsInterval rnd distanceAccumulator totalDistance f =
     (f \<noteq> 0 \<and> distanceAccumulator > rnd (totalDistance / real f))"

text \<open>
  The second loop, \<^verbatim>\<open>coordinatesWithDistances.forEach((coordinate, index) => ...)\<close>, with
  the state \<open>(distanceAccumulator, coordinates)\<close>.
\<close>

fun takeLoop ::
  "(real \<Rightarrow> real) \<Rightarrow> real \<Rightarrow> nat \<Rightarrow> nat \<Rightarrow> Coordinate list \<Rightarrow> real \<times> Coordinate list
     \<Rightarrow> real \<times> Coordinate list" where
  "takeLoop rnd totalDistance f index [] st = st"
| "takeLoop rnd totalDistance f index (coordinate # rest) (distanceAccumulator, coordinates) =
     (let acc = rnd (distanceAccumulator + distance coordinate)
      in if index = 0
         then takeLoop rnd totalDistance f (Suc index) rest (acc, coordinates @ [coordinate])
         else if exceedsInterval rnd acc totalDistance f
         then takeLoop rnd totalDistance f (Suc index) rest (0, coordinates @ [coordinate])
         else takeLoop rnd totalDistance f (Suc index) rest (acc, coordinates))"

text \<open>
  The callback of \<^verbatim>\<open>rawCoordinates.map((polygon, index) => ...)\<close>. An element of
  \<open>rawCoordinates\<close> is \<open>None\<close> when the source pushed \<^verbatim>\<open>undefined\<close> (the first ring of
  a Polygon without rings). \<^verbatim>\<open>polygon[0][0]\<close> is a \<^verbatim>\<open>TypeError\<close> when \<open>polygon\<close> is
  \<^verbatim>\<open>undefined\<close> or empty.
\<close>

definition condensePolygon ::
  "(real \<Rightarrow> real) \<Rightarrow> constants \<Rightarrow> bool \<Rightarrow> nat \<Rightarrow> ring option \<Rightarrow> error + Coordinate list" where
  "condensePolygon rnd c isMultiPolygon index polygon =
     (case polygon of
        None \<Rightarrow> Inl TypeError
      | Some [] \<Rightarrow> Inl TypeError
      | Some (first # rest) \<Rightarrow>
          (let (totalDistance, coordinatesWithDistances) =
                 distanceLoop rnd first rest
                   (0, [\<lparr>longitude = fst first, latitude = snd first, distance = 0\<rparr>]);
               f = frequency c isMultiPolygon index
           in Inr (snd (takeLoop rnd totalDistance f 0 coordinatesWithDistances (0, [])))))"

text \<open>\<^verbatim>\<open>Array.prototype.map\<close> with the index; the first exception ends it.\<close>

fun mapPolygons ::
  "(real \<Rightarrow> real) \<Rightarrow> constants \<Rightarrow> bool \<Rightarrow> nat \<Rightarrow> ring option list
     \<Rightarrow> error + Coordinate list list" where
  "mapPolygons rnd c isMultiPolygon index [] = Inr []"
| "mapPolygons rnd c isMultiPolygon index (polygon # rest) =
     (case condensePolygon rnd c isMultiPolygon index polygon of
        Inl e \<Rightarrow> Inl e
      | Inr coordinates \<Rightarrow>
          (case mapPolygons rnd c isMultiPolygon (Suc index) rest of
             Inl e \<Rightarrow> Inl e
           | Inr others \<Rightarrow> Inr (coordinates # others)))"

text \<open>
  \<^verbatim>\<open>geoJson.coordinates.sort((a, b) => b[0].length - a[0].length)\<close>: a stable sort
  (ECMAScript 2019) by the length of the first ring, descending. The comparator reads
  \<^verbatim>\<open>.length\<close> of the first ring of both arguments, a \<^verbatim>\<open>TypeError\<close> for a polygon
  without rings; it is called on every element as soon as there are two.
\<close>

definition sortPolygons :: "ring list list \<Rightarrow> error + ring list list" where
  "sortPolygons polygons =
     (if 2 \<le> length polygons \<and> (\<exists>p \<in> set polygons. p = [])
      then Inl TypeError
      else Inr (sort_key (\<lambda>p. - int (length (hd p))) polygons))"

text \<open>The polygons kept by \<^verbatim>\<open>.slice(0, constants.MAX_POLYGON_COUNT)\<close>.\<close>

definition keptPolygons :: "constants \<Rightarrow> ring list list \<Rightarrow> error + ring list list" where
  "keptPolygons c polygons =
     (case sortPolygons polygons of
        Inl e \<Rightarrow> Inl e
      | Inr ordered \<Rightarrow> Inr (take (MAX_POLYGON_COUNT c) ordered))"

text \<open>\<^verbatim>\<open>geoJson.coordinates[0]\<close>: \<^verbatim>\<open>undefined\<close> on an empty array.\<close>

definition firstRing :: "ring list \<Rightarrow> ring option" where
  "firstRing rings = (case rings of [] \<Rightarrow> None | r # _ \<Rightarrow> Some r)"

text \<open>
  The first half of \<^verbatim>\<open>condenseCoordinates\<close>: the array \<open>rawCoordinates\<close> as it stands
  when the \<^verbatim>\<open>if\<close> chain is left. (For a Point the source returns before it is used.)
\<close>

definition rawCoordinates :: "constants \<Rightarrow> OpenStreetMapGeoJson \<Rightarrow> error + ring option list" where
  "rawCoordinates c geoJson =
     (case geoJson of
        Point _ \<Rightarrow> Inr []
      | Polygon rings \<Rightarrow> Inr [firstRing rings]
      | LineString rings \<Rightarrow> Inr [firstRing rings]
      | MultiPolygon polygons \<Rightarrow>
          (case keptPolygons c polygons of
             Inl e \<Rightarrow> Inl e
           | Inr kept \<Rightarrow> Inr (map Some (concat kept)))
      | UnknownType _ \<Rightarrow> Inl (Thrown UNKNOWN_GEOJSON_TYPE))"

definition isMultiPolygon :: "OpenStreetMapGeoJson \<Rightarrow> bool" where
  "isMultiPolygon geoJson = (case geoJson of MultiPolygon _ \<Rightarrow> True | _ \<Rightarrow> False)"

definition condenseCoordinates ::
  "(real \<Rightarrow> real) \<Rightarrow> constants \<Rightarrow> OpenStreetMapGeoJson \<Rightarrow> error + Coordinate list list" where
  "condenseCoordinates rnd c geoJson =
     (case geoJson of
        Point _ \<Rightarrow> Inr [[]]
      | _ \<Rightarrow>
          (case rawCoordinates c geoJson of
             Inl e \<Rightarrow> Inl e
           | Inr raw \<Rightarrow> mapPolygons rnd c (isMultiPolygon geoJson) 0 raw))"

section \<open>Encoding the canonical name\<close>

text \<open>
  A string is the list of its characters, each a code unit below 256. The class
  \<^verbatim>\<open>\s\<close> of a JavaScript regular expression holds, among these, tab, line feed,
  vertical tab, form feed, carriage return, space and the no-break space.
\<close>

definition isWhitespace :: "char \<Rightarrow> bool" where
  "isWhitespace ch =
     (ch = CHR 0x09 \<or> ch = CHR 0x0A \<or> ch = CHR 0x0B \<or> ch = CHR 0x0C \<or> ch = CHR 0x0D
      \<or> ch = CHR '' '' \<or> ch = CHR 0xA0)"

text \<open>
  \<^verbatim>\<open>.replace(/,+\s/g, ',')\<close>. At a comma the greedy \<^verbatim>\<open>,+\<close> takes the whole run of
  commas; the match succeeds when one whitespace character follows the run (giving back
  commas cannot help, since what follows a shorter run is a comma), and the scan goes on
  after that character. Otherwise the character is copied and the scan moves one step.
\<close>

function replaceCommaWhitespace :: "string \<Rightarrow> string" where
  "replaceCommaWhitespace [] = []"
| "replaceCommaWhitespace (ch # rest) =
     (if ch = CHR '',''
      then (case dropWhile (\<lambda>x. x = CHR '','') rest of
              [] \<Rightarrow> ch # replaceCommaWhitespace rest
            | w # after \<Rightarrow>
                if isWhitespace w then CHR '','' # replaceCommaWhitespace after
                else ch # replaceCommaWhitespace rest)
      else ch # replaceCommaWhitespace rest)"
  by pat_completeness auto
termination
proof (relation "measure length")
  fix ch :: char and rest w after
  assume "dropWhile (\<lambda>x. x = CHR '','') rest = w # after"
  then have "length (w # after) \<le> length rest"
    by (metis length_dropWhile_le)
  then show "(after, ch # rest) \<in> measure length" by simp
qed simp_all

text \<open>\<^verbatim>\<open>.replace(/\s+/g, '+')\<close>: every maximal run of whitespace becomes one plus.\<close>

function replaceWhitespace :: "string \<Rightarrow> string" where
  "replaceWhitespace [] = []"
| "replaceWhitespace (ch # rest) =
     (if isWhitespace ch then CHR ''+'' # replaceWhitespace (dropWhile isWhitespace rest)
      else ch # replaceWhitespace rest)"
  by pat_completeness auto
termination
proof (relation "measure length")
  fix ch :: char and rest
  have "length (dropWhile isWhitespace rest) \<le> length rest"
    by (rule length_dropWhile_le)
  then show "(dropWhile isWhitespace rest, ch # rest) \<in> measure length" by simp
qed simp_all

definition buildEncodedCanonicalName :: "string \<Rightarrow> string" where
  "buildEncodedCanonicalName canonicalName =
     replaceWhitespace (replaceCommaWhitespace canonicalName)"

section \<open>Boundary fetcher\<close>

text \<open>
  The geocoding service is outside the repository. What \<^verbatim>\<open>await axios.get(url, ...)\<close>
  gives is a value of one of two shapes, both holding the candidates of the service.
  axios resolves to its response envelope, the object
  \<^verbatim>\<open>{data, status, statusText, headers, config, request}\<close> with the candidates in
  \<^verbatim>\<open>data\<close>; the envelope is no array: it has no method \<^verbatim>\<open>filter\<close> and is not
  iterable. The source declares the value an \<^verbatim>\<open>OpenStreetMapResponse[]\<close>, the array of
  the candidates itself, which it is where a response interceptor of axios hands on the
  \<^verbatim>\<open>data\<close> alone. The service is a function from the request URL to such a value, or
  to \<open>None\<close> when \<^verbatim>\<open>axios.get\<close> rejects.
\<close>

datatype resolved =
    ResponseArray "OpenStreetMapResponse list"
  | ResponseEnvelope "OpenStreetMapResponse list"

type_synonym geocoder = "string \<Rightarrow> resolved option"

definition isPointResponse :: "OpenStreetMapResponse \<Rightarrow> bool" where
  "isPointResponse response =
     (case geojson response of Some (Point _) \<Rightarrow> True | _ \<Rightarrow> False)"

text \<open>The destructuring \<^verbatim>\<open>const [x] = xs\<close> of an array: \<^verbatim>\<open>undefined\<close> on an empty one.\<close>

definition firstResponse :: "OpenStreetMapResponse list \<Rightarrow> OpenStreetMapResponse option" where
  "firstResponse responses = (case responses of [] \<Rightarrow> None | r # _ \<Rightarrow> Some r)"

text \<open>
  \<^verbatim>\<open>openStreetMapResponses.filter(response => response.geojson?.type === 'Point')\<close>: on
  the envelope \<^verbatim>\<open>filter\<close> is \<^verbatim>\<open>undefined\<close>, and calling it is a \<^verbatim>\<open>TypeError\<close>.
\<close>

definition filterPoints :: "resolved \<Rightarrow> error + OpenStreetMapResponse list" where
  "filterPoints openStreetMapResponses =
     (case openStreetMapResponses of
        ResponseArray responses \<Rightarrow> Inr (filter isPointResponse responses)
      | ResponseEnvelope _ \<Rightarrow> Inl TypeError)"

text \<open>
  \<^verbatim>\<open>const [openStreetMapResponse] = openStreetMapResponses\<close>: the envelope is not
  iterable, and destructuring it is a \<^verbatim>\<open>TypeError\<close>.
\<close>

definition destructureFirst :: "resolved \<Rightarrow> error + OpenStreetMapResponse option" where
  "destructureFirst openStreetMapResponses =
     (case openStreetMapResponses of
        ResponseArray responses \<Rightarrow> Inr (firstResponse responses)
      | ResponseEnvelope _ \<Rightarrow> Inl TypeError)"

text \<open>
  The request, the selection of the candidate and the \<^verbatim>\<open>return\<close> are all inside the
  \<^verbatim>\<open>try\<close>: whatever is thrown there, the rejection of \<^verbatim>\<open>axios.get\<close> or a
  \<^verbatim>\<open>TypeError\<close> of the selection, is caught and replaced by
  \<open>FAILED_OPENSTREETMAP_REQUEST\<close>.
\<close>

definition doOpenStreetMapRequest ::
  "geocoder \<Rightarrow> Location \<Rightarrow> error + OpenStreetMapResponse option" where
  "doOpenStreetMapRequest get location =
     (let encodedCanonicalName = buildEncodedCanonicalName (canonical_name location);
          url = ''https://nominatim.openstreetmap.org/search.php?q='' @ encodedCanonicalName
                  @ ''&polygon_geojson=1&format=json''
      in case get url of
           None \<Rightarrow> Inl (Thrown FAILED_OPENSTREETMAP_REQUEST)
         | Some openStreetMapResponses \<Rightarrow>
             (case (if target_type location = Some Postal_Code
                    then (case filterPoints openStreetMapResponses of
                            Inl e \<Rightarrow> Inl e
                          | Inr points \<Rightarrow> Inr (firstResponse points))
                    else destructureFirst openStreetMapResponses) of
                Inl e \<Rightarrow> Inl (Thrown FAILED_OPENSTREETMAP_REQUEST)
              | Inr openStreetMapResponse \<Rightarrow> Inr openStreetMapResponse))"


section \<open>Shape and URL builder\<close>

text \<open>\<^verbatim>\<open>Array.prototype.join\<close>.\<close>

fun join :: "string \<Rightarrow> string list \<Rightarrow> string" where
  "join sep [] = []"
| "join sep [x] = x"
| "join sep (x # y # ys) = x @ sep @ join sep (y # ys)"

definition style :: string where
  "style = join ''&''
     [''&format=png'',
      ''maptype=roadmap'',
      ''style=feature:landscape.man_made|element:geometry|color:0xf7f1df'',
      ''style=feature:landscape.natural|element:geometry|color:0xd0e3b4'',
      ''style=feature:landscape.natural.terrain|element:geometry|visibility:off'',
      ''style=feature:poi|element:labels|visibility:off'',
      ''style=feature:poi.business|visibility:off'',
      ''style=feature:poi.medical|element:geometry|color:0xfbd3da'',
      ''style=feature:poi.park|element:geometry|color:0xbde6ab'',
      ''style=feature:road|element:geometry.stroke|visibility:off'',
      ''style=feature:road|element:labels|visibility:off'',
      ''style=feature:road.arterial|element:geometry.fill|color:0xffffff'',
      ''style=feature:road.highway|element:geometry.fill|color:0xffe15f'',
      ''style=feature:road.highway|element:geometry.stroke|color:0xefd151'',
      ''style=feature:road.local|element:geometry.fill|color:0xffffff'',
      ''style=feature:transit|element:labels.icon|visibility:off'',
      ''style=feature:transit|element:labels.text|visibility:off'',
      ''style=feature:transit.station.airport|element:geometry.fill|color:0xcfb2db'',
      ''style=feature:transit.station.bus|visibility:off'',
      ''style=feature:water|element:geometry|color:0xa2daf2'']"

text \<open>
  The text of a number in a template literal. For an integer of magnitude at most
  \<open>2 ^ 53\<close> JavaScript prints the decimal digits, with a minus sign when negative. The
  text of any other number (its shortest round-trip decimal) is the parameter \<open>other\<close>.
\<close>

fun digits :: "nat \<Rightarrow> string" where
  "digits n =
     (if n < 10 then [''0123456789'' ! n]
      else digits (n div 10) @ [''0123456789'' ! (n mod 10)])"

definition numberToString :: "(real \<Rightarrow> string) \<Rightarrow> real \<Rightarrow> string" where
  "numberToString other x =
     (if x = of_int \<lfloor>x\<rfloor> \<and> \<bar>x\<bar> \<le> 2 ^ 53
      then (if x < 0 then ''-'' @ digits (nat (- \<lfloor>x\<rfloor>)) else digits (nat \<lfloor>x\<rfloor>))
      else other x)"

text \<open>
  The inner \<^verbatim>\<open>polygon.reduce\<close>: the path prefix followed by \<^verbatim>\<open>|latitude,longitude\<close> for
  every coordinate.
\<close>

definition polygonPath :: "(real \<Rightarrow> string) \<Rightarrow> Coordinate list \<Rightarrow> string" where
  "polygonPath other polygon =
     fold (\<lambda>coordinate thisPath.
             thisPath @ ''|'' @ numberToString other (latitude coordinate)
               @ '','' @ numberToString other (longitude coordinate))
       polygon ''&path=color:0x00000077|weight:1|fillcolor:0xAA000033''"

definition buildLocationShape ::
  "(real \<Rightarrow> string) \<Rightarrow> Location \<Rightarrow> Coordinate list list \<Rightarrow> error + string" where
  "buildLocationShape other location coordinates =
     (if length coordinates = 0 then Inl (Thrown NO_COORDINATES_FOUND)
      else Inr (fold (\<lambda>polygon fullPath.
                  if length polygon > 2
                  then fullPath @ polygonPath other polygon
                         @ ''|'' @ numberToString other (latitude (polygon ! 0))
                         @ '','' @ numberToString other (longitude (polygon ! 0))
                  else fullPath @ ''&center=''
                         @ buildEncodedCanonicalName (canonical_name location))
                coordinates style))"



section \<open>Auxiliary functions: the two loops in closed form\<close>

text \<open>
  The list the first loop pushes after the first coordinate: every later position with
  its separation from its predecessor.
\<close>

fun withDistances :: "(real \<Rightarrow> real) \<Rightarrow> position \<Rightarrow> position list \<Rightarrow> Coordinate list" where
  "withDistances rnd prev [] = []"
| "withDistances rnd prev (p # ps) =
     \<lparr>longitude = fst p, latitude = snd p,
      distance = calculateCoordinateSeparation rnd p prev\<rparr> # withDistances rnd p ps"

text \<open>The sum of the first loop: every partial sum is rounded.\<close>

fun roundedSum :: "(real \<Rightarrow> real) \<Rightarrow> real \<Rightarrow> real list \<Rightarrow> real" where
  "roundedSum rnd t [] = t"
| "roundedSum rnd t (d # ds) = roundedSum rnd (rnd (t + d)) ds"

text \<open>
  The second loop after index 0: the coordinates taken from \<open>cs\<close> when the
  accumulator stands at \<open>acc\<close>.
\<close>

fun keepLoop ::
  "(real \<Rightarrow> real) \<Rightarrow> real \<Rightarrow> nat \<Rightarrow> real \<Rightarrow> Coordinate list \<Rightarrow> Coordinate list" where
  "keepLoop rnd t f acc [] = []"
| "keepLoop rnd t f acc (c # cs) =
     (if exceedsInterval rnd (rnd (acc + distance c)) t f
      then c # keepLoop rnd t f 0 cs
      else keepLoop rnd t f (rnd (acc + distance c)) cs)"

text \<open>The value of \<^verbatim>\<open>totalDistance\<close> when the first loop is left.\<close>

definition totalDistance :: "(real \<Rightarrow> real) \<Rightarrow> ring \<Rightarrow> real" where
  "totalDistance rnd polygon =
     (case polygon of
        [] \<Rightarrow> 0
      | first # rest \<Rightarrow>
          fst (distanceLoop rnd first rest
                 (0, [\<lparr>longitude = fst first, latitude = snd first, distance = 0\<rparr>])))"


text \<open>
  The fragment of one ring as the specification words it (4.4): a ring of more than 2
  points gives the path prefix, every point as \<^verbatim>\<open>|latitude,longitude\<close> and the first
  point once more; any other ring gives \<^verbatim>\<open>&center=\<close> and the encoded name.
\<close>

definition specPointText :: "(real \<Rightarrow> string) \<Rightarrow> Coordinate \<Rightarrow> string" where
  "specPointText other coordinate =
     ''|'' @ numberToString other (latitude coordinate)
       @ '','' @ numberToString other (longitude coordinate)"

definition specRingFragment :: "(real \<Rightarrow> string) \<Rightarrow> Location \<Rightarrow> Coordinate list \<Rightarrow> string" where
  "specRingFragment other location ring =
     (if length ring > 2
      then ''&path=color:0x00000077|weight:1|fillcolor:0xAA000033''
             @ concat (map (specPointText other) ring) @ specPointText other (hd ring)
      else ''&center='' @ buildEncodedCanonicalName (canonical_name location))"





definition noText :: "real \<Rightarrow> string" where
  "noText x = []"

text \<open>
  What the proofs about a ring of total distance 0 need of the rounding: it keeps 0 and
  keeps a positive number positive. Both \<open>binary64\<close> and \<open>exact\<close> do.
\<close>

definition signPreserving :: "(real \<Rightarrow> real) \<Rightarrow> bool" where
  "signPreserving rnd \<longleftrightarrow> rnd 0 = 0 \<and> (\<forall>x. 0 < x \<longrightarrow> 0 < rnd x)"

text \<open>The double with the 53-bit significand \<open>m\<close> and the exponent \<open>e\<close>.\<close>

definition double :: "int \<Rightarrow> int \<Rightarrow> real" where
  "double m e = of_int m * 2 powi (e - 52)"

text \<open>
  A MultiPolygon of three polygons of one ring of 11 points each. The first two are
  eleven times the same point; the third is the straight line through the points
  \<open>(k, 3k)\<close>, ten segments of the same length \<open>sqrt 10\<close>. The sort leaves them in this
  order, so the third ring has index 2 and is condensed with the frequency 10.
\<close>

definition flatRing :: ring where
  "flatRing = [(0, 0), (0, 0), (0, 0), (0, 0), (0, 0), (0, 0), (0, 0), (0, 0), (0, 0), (0, 0), (0, 0)]"

definition lineRing :: ring where
  "lineRing = [(0, 0), (1, 3), (2, 6), (3, 9), (4, 12), (5, 15), (6, 18), (7, 21), (8, 24),
               (9, 27), (10, 30)]"

definition islands :: "ring list list" where
  "islands = [[flatRing], [flatRing], [lineRing]]"

text \<open>
  A ring of 201 points on a straight line, the points \<open>(k, 2k)\<close> for \<open>k = 0 .. 200\<close>: 200
  segments of the same length \<open>sqrt 5\<close>. As the only ring of a Polygon it is condensed
  with the frequency \<open>DISTANCE_INTERVAL_FREQUENCY = 200\<close>.
\<close>

definition longRing :: ring where
  "longRing = map (\<lambda>k. (real k, 2 * real k)) [0..<201]"

section \<open>Rounding\<close>

lemma roundHalfEven_near:
  assumes "\<bar>x - of_int m\<bar> < 1 / 2"
  shows "roundHalfEven x = m"
proof (cases "of_int m \<le> x")
  case True
  then have "\<lfloor>x\<rfloor> = m" using assms by (intro floor_unique) auto
  then show ?thesis using assms True by (simp add: roundHalfEven_def Let_def)
next
  case False
  then have "\<lfloor>x\<rfloor> = m - 1" using assms by (intro floor_unique) auto
  then show ?thesis using assms False by (auto simp: roundHalfEven_def Let_def)
qed

lemma roundHalfEven_ge_floor: "\<lfloor>x\<rfloor> \<le> roundHalfEven x"
  by (simp add: roundHalfEven_def Let_def)

lemma binade:
  assumes "2 powi e \<le> \<bar>x\<bar>" "\<bar>x\<bar> < 2 powi (e + 1)"
  shows "\<lfloor>log 2 \<bar>x\<bar>\<rfloor> = e"
proof -
  have "0 < (2::real) powi e" by simp
  then have pos: "0 < \<bar>x\<bar>" using assms(1) by linarith
  have "2 powr (of_int e) \<le> \<bar>x\<bar>" using assms(1) by (simp add: powr_real_of_int')
  then have 1: "of_int e \<le> log 2 \<bar>x\<bar>" using pos by (simp add: le_log_iff)
  have "(2::real) powi (e + 1) = 2 powr (of_int (e + 1))"
    using powr_real_of_int'[of "2::real" "e + 1"] by simp
  then have "\<bar>x\<bar> < 2 powr (of_int (e + 1))" using assms(2) by simp
  then have 2: "log 2 \<bar>x\<bar> < of_int (e + 1)" using pos by (simp add: log_less_iff)
  from 1 2 show ?thesis by (intro floor_unique) auto
qed

text \<open>
  How a rounding is computed: \<open>x\<close> lies in the binade of \<open>2 ^ e\<close> and within less than
  half a unit in the last place of the double of significand \<open>m\<close>.
\<close>

lemma binary64_eq:
  assumes "2 powi e \<le> \<bar>x\<bar>" "\<bar>x\<bar> < 2 powi (e + 1)"
    and "\<bar>x / 2 powi (e - 52) - of_int m\<bar> < 1 / 2"
  shows "binary64 x = double m e"
proof -
  have "0 < (2::real) powi e" by simp
  then have "0 < \<bar>x\<bar>" using assms(1) by linarith
  then have "x \<noteq> 0" by auto
  then show ?thesis
    unfolding binary64_def double_def
    using binade[OF assms(1,2)] roundHalfEven_near[OF assms(3)]
    by (simp add: Let_def)
qed

text \<open>
  A sum that falls halfway between two doubles goes to the one with the even significand.
\<close>

lemma roundHalfEven_tie:
  assumes "x = of_int m + 1 / 2 \<or> x = of_int m - 1 / 2" "even m"
  shows "roundHalfEven x = m"
  using assms(1)
proof
  assume x: "x = of_int m + 1 / 2"
  then have "\<lfloor>x\<rfloor> = m" by (intro floor_unique) auto
  then show ?thesis using x assms(2) by (simp add: roundHalfEven_def Let_def)
next
  assume x: "x = of_int m - 1 / 2"
  then have "\<lfloor>x\<rfloor> = m - 1" by (intro floor_unique) auto
  then show ?thesis using x assms(2) by (simp add: roundHalfEven_def Let_def)
qed

lemma binary64_tie:
  assumes "2 powi e \<le> \<bar>x\<bar>" "\<bar>x\<bar> < 2 powi (e + 1)"
    and "x / 2 powi (e - 52) = of_int m + 1 / 2 \<or> x / 2 powi (e - 52) = of_int m - 1 / 2"
    and "even m"
  shows "binary64 x = double m e"
proof -
  have "0 < (2::real) powi e" by simp
  then have "0 < \<bar>x\<bar>" using assms(1) by linarith
  then have "x \<noteq> 0" by auto
  then show ?thesis
    unfolding binary64_def double_def
    using binade[OF assms(1,2)] roundHalfEven_tie[OF assms(3,4)]
    by (simp add: Let_def)
qed

lemma binary64_0: "binary64 0 = 0"
  by (simp add: binary64_def)

lemma binary64_pos:
  assumes "0 < x"
  shows "0 < binary64 x"
proof -
  define e where "e = \<lfloor>log 2 \<bar>x\<bar>\<rfloor>"
  define ulp :: real where "ulp = 2 powi (e - 52)"
  have ulp: "0 < ulp" unfolding ulp_def by simp
  have "of_int e \<le> log 2 x" unfolding e_def using assms by simp
  then have "2 powr (of_int e) \<le> x" using assms by (simp add: le_log_iff)
  then have lo: "2 powi e \<le> x" by (simp add: powr_real_of_int')
  have "x / ulp = x * 2 powi (52 - e)"
    unfolding ulp_def by (simp add: power_int_diff field_simps)
  also have "\<dots> \<ge> 2 powi e * 2 powi (52 - e)"
    using lo by (intro mult_right_mono) simp_all
  also have "(2::real) powi e * 2 powi (52 - e) = 2 ^ 52"
    by (simp flip: power_int_add)
  finally have "1 \<le> x / ulp" by simp
  then have "1 \<le> \<lfloor>x / ulp\<rfloor>" by simp
  then have "1 \<le> roundHalfEven (x / ulp)"
    using roundHalfEven_ge_floor[of "x / ulp"] by linarith
  then have "0 < of_int (roundHalfEven (x / ulp)) * ulp"
    using ulp by simp
  then show ?thesis
    using assms unfolding binary64_def e_def ulp_def by (simp add: Let_def)
qed

lemma signPreserving_binary64: "signPreserving binary64"
  by (simp add: signPreserving_def binary64_0 binary64_pos)

lemma signPreserving_exact: "signPreserving exact"
  by (simp add: signPreserving_def exact_def)

lemma signPreserving_nonneg: "signPreserving rnd \<Longrightarrow> 0 \<le> x \<Longrightarrow> 0 \<le> rnd x"
  unfolding signPreserving_def by (cases "x = 0") (auto simp: less_imp_le)

lemma binary64_1: "binary64 1 = 1"
  using binary64_eq[of 0 1 4503599627370496] by (simp add: double_def power_int_minus)

lemma binary64_3: "binary64 3 = 3"
  using binary64_eq[of 1 3 6755399441055744] by (simp add: double_def power_int_minus)

lemma binary64_4: "binary64 4 = 4"
  using binary64_eq[of 2 4 4503599627370496] by (simp add: double_def power_int_minus)

lemma binary64_5: "binary64 5 = 5"
  using binary64_eq[of 2 5 5629499534213120] by (simp add: double_def power_int_minus)

lemma binary64_9: "binary64 9 = 9"
  using binary64_eq[of 3 9 5066549580791808] by (simp add: double_def power_int_minus)

lemma binary64_10: "binary64 10 = 10"
  using binary64_eq[of 3 10 5629499534213120] by (simp add: double_def power_int_minus)

lemma binary64_15: "binary64 15 = 15"
  using binary64_eq[of 3 15 8444249301319680] by (simp add: double_def power_int_minus)

lemma binary64_16: "binary64 16 = 16"
  using binary64_eq[of 4 16 4503599627370496] by (simp add: double_def power_int_minus)

lemma binary64_20: "binary64 20 = 20"
  using binary64_eq[of 4 20 5629499534213120] by (simp add: double_def power_int_minus)

lemma binary64_25: "binary64 25 = 25"
  using binary64_eq[of 4 25 7036874417766400] by (simp add: double_def power_int_minus)

lemma binary64_2: "binary64 2 = 2"
  using binary64_eq[of 1 2 4503599627370496] by (simp add: double_def power_int_minus)

lemmas binary64_integers =
  binary64_1 binary64_3 binary64_4 binary64_5 binary64_9 binary64_10 binary64_15 binary64_16 binary64_20 binary64_25



lemma binary64_1_40: "binary64 (1 / 40) = double 7205759403792794 (-6)"
  using binary64_eq[of "-6" "1 / 40" 7205759403792794] by (simp add: power_int_minus)

section \<open>The loops\<close>

lemma distanceLoop_eq:
  "distanceLoop rnd prev ps (t, cwd) =
     (roundedSum rnd t (map distance (withDistances rnd prev ps)),
      cwd @ withDistances rnd prev ps)"
  by (induction ps arbitrary: prev t cwd) (simp_all add: Let_def)

lemma takeLoop_Suc:
  "snd (takeLoop rnd t f (Suc i) cs (acc, out)) = out @ keepLoop rnd t f acc cs"
  by (induction cs arbitrary: i acc out) (simp_all add: Let_def)

lemma condensePolygon_Cons:
  "condensePolygon rnd c m i (Some (p # ps)) =
     Inr (\<lparr>longitude = fst p, latitude = snd p, distance = 0\<rparr>
          # keepLoop rnd (roundedSum rnd 0 (map distance (withDistances rnd p ps)))
              (frequency c m i) (rnd 0) (withDistances rnd p ps))"
  by (simp add: condensePolygon_def distanceLoop_eq takeLoop_Suc Let_def)

lemma totalDistance_Cons:
  "totalDistance rnd (p # ps) = roundedSum rnd 0 (map distance (withDistances rnd p ps))"
  by (simp add: totalDistance_def distanceLoop_eq)

lemma condensePolygon_Inr_iff:
  "(\<exists>out. condensePolygon rnd c m i r = Inr out) \<longleftrightarrow> (\<exists>ring. r = Some ring \<and> ring \<noteq> [])"
proof (cases r)
  case None
  then show ?thesis by (simp add: condensePolygon_def)
next
  case (Some ring)
  then show ?thesis
    by (cases ring) (simp_all add: condensePolygon_Cons, simp add: condensePolygon_def)
qed

lemma sep_nonneg:
  assumes "signPreserving rnd"
  shows "0 \<le> calculateCoordinateSeparation rnd a b"
proof -
  note nn = signPreserving_nonneg[OF assms]
  have "0 \<le> rnd (\<bar>rnd (fst a - fst b)\<bar>\<^sup>2) + rnd (\<bar>rnd (snd a - snd b)\<bar>\<^sup>2)"
    by (intro add_nonneg_nonneg nn) simp_all
  then have "0 \<le> sqrt (rnd (rnd (\<bar>rnd (fst a - fst b)\<bar>\<^sup>2) + rnd (\<bar>rnd (snd a - snd b)\<bar>\<^sup>2)))"
    by (intro real_sqrt_ge_zero nn)
  then show ?thesis
    unfolding calculateCoordinateSeparation_def Let_def by (rule nn)
qed

lemma withDistances_nonneg:
  "signPreserving rnd \<Longrightarrow> c \<in> set (withDistances rnd prev ps) \<Longrightarrow> 0 \<le> distance c"
  by (induction ps arbitrary: prev) (auto simp: sep_nonneg)

lemma roundedSum_nonneg:
  assumes "signPreserving rnd"
  shows "0 \<le> t \<Longrightarrow> \<forall>d \<in> set ds. 0 \<le> d \<Longrightarrow> 0 \<le> roundedSum rnd t ds"
proof (induction ds arbitrary: t)
  case Nil
  then show ?case by simp
next
  case (Cons d ds)
  have "0 \<le> rnd (t + d)"
    using Cons.prems by (intro signPreserving_nonneg[OF assms]) simp
  then show ?case using Cons by simp
qed

lemma roundedSum_zero:
  assumes "signPreserving rnd"
  shows "0 \<le> t \<Longrightarrow> \<forall>d \<in> set ds. 0 \<le> d \<Longrightarrow> roundedSum rnd t ds = 0 \<Longrightarrow>
           t = 0 \<and> (\<forall>d \<in> set ds. d = 0)"
proof (induction ds arbitrary: t)
  case Nil
  then show ?case by simp
next
  case (Cons d ds)
  have d: "0 \<le> d" and rest: "\<forall>x \<in> set ds. 0 \<le> x" using Cons.prems(2) by simp_all
  have nn: "0 \<le> rnd (t + d)"
    using Cons.prems(1) d by (intro signPreserving_nonneg[OF assms]) simp
  have "roundedSum rnd (rnd (t + d)) ds = 0" using Cons.prems(3) by simp
  from Cons.IH[OF nn rest this] have r0: "rnd (t + d) = 0" and all0: "\<forall>x \<in> set ds. x = 0"
    by simp_all
  have "\<not> 0 < t + d"
    using r0 assms unfolding signPreserving_def by (metis less_irrefl)
  then have "t = 0" "d = 0" using Cons.prems(1) d by linarith+
  then show ?case using all0 by simp
qed

lemma keepLoop_zero:
  assumes "signPreserving rnd" "\<forall>c \<in> set cs. distance c = 0"
  shows "keepLoop rnd 0 f 0 cs = []"
proof -
  have r0: "rnd 0 = 0" using assms(1) by (simp add: signPreserving_def)
  show ?thesis using assms(2) by (induction cs) (simp_all add: exceedsInterval_def r0)
qed

lemma withDistances_length: "length (withDistances rnd prev ps) = length ps"
  by (induction ps arbitrary: prev) simp_all

lemma withDistances_nth:
  "j < length ps \<Longrightarrow>
     withDistances rnd prev ps ! j =
       \<lparr>longitude = fst (ps ! j), latitude = snd (ps ! j),
        distance = calculateCoordinateSeparation rnd (ps ! j) ((prev # ps) ! j)\<rparr>"
proof (induction ps arbitrary: prev j)
  case Nil
  then show ?case by simp
next
  case (Cons p ps)
  then show ?case by (cases j) simp_all
qed

lemma mapPolygons_nth:
  "mapPolygons rnd c m i raw = Inr outs \<Longrightarrow>
     length outs = length raw \<and>
     (\<forall>k < length raw. condensePolygon rnd c m (i + k) (raw ! k) = Inr (outs ! k))"
proof (induction raw arbitrary: i outs)
  case Nil
  then show ?case by simp
next
  case (Cons r raw)
  from Cons.prems obtain out rest where
    r: "condensePolygon rnd c m i r = Inr out" and
    rest: "mapPolygons rnd c m (Suc i) raw = Inr rest" and
    outs: "outs = out # rest"
    by (auto split: sum.splits)
  from Cons.IH[OF rest] have len: "length rest = length raw"
    and nth: "\<And>k. k < length raw \<Longrightarrow>
                condensePolygon rnd c m (Suc i + k) (raw ! k) = Inr (rest ! k)"
    by auto
  have "condensePolygon rnd c m (i + k) ((r # raw) ! k) = Inr (outs ! k)"
    if "k < length (r # raw)" for k
  proof (cases k)
    case 0
    then show ?thesis using r outs by simp
  next
    case (Suc k')
    then show ?thesis using nth[of k'] that outs by simp
  qed
  then show ?case using len outs by simp
qed

lemma mapPolygons_success:
  "(\<forall>r \<in> set raw. \<exists>ring. r = Some ring \<and> ring \<noteq> []) \<Longrightarrow>
     \<exists>outs. mapPolygons rnd c m i raw = Inr outs"
proof (induction raw arbitrary: i)
  case Nil
  then show ?case by simp
next
  case (Cons r raw)
  from Cons.prems obtain ring where "r = Some ring" "ring \<noteq> []" by auto
  then obtain out where out: "condensePolygon rnd c m i r = Inr out"
    using condensePolygon_Inr_iff[of rnd c m i r] by auto
  from Cons.IH[of "Suc i"] Cons.prems obtain rest where
    "mapPolygons rnd c m (Suc i) raw = Inr rest"
    by auto
  with out show ?case by simp
qed

text \<open>Every ring of the result is the callback's result on the ring at the same index.\<close>

lemma condenseCoordinates_rings:
  assumes "condenseCoordinates rnd c g = Inr outs" "rawCoordinates c g = Inr raw"
    "k < length raw"
  shows "k < length outs \<and>
         condensePolygon rnd c (isMultiPolygon g) k (raw ! k) = Inr (outs ! k)"
proof -
  have notPoint: "\<not> (\<exists>xs. g = Point xs)"
    using assms(2,3) by (auto simp: rawCoordinates_def)
  then have "mapPolygons rnd c (isMultiPolygon g) 0 raw = Inr outs"
    using assms(1,2) by (cases g) (simp_all add: condenseCoordinates_def)
  from mapPolygons_nth[OF this] assms(3) show ?thesis by simp
qed

lemma keepLoop_indices:
  "\<exists>ks. sorted_wrt (<) ks \<and> set ks \<subseteq> {..<length cs} \<and>
        keepLoop rnd t f acc cs = map ((!) cs) ks"
proof (induction cs arbitrary: acc)
  case Nil
  show ?case by (rule exI[of _ "[]"]) simp
next
  case (Cons c cs)
  show ?case
  proof (cases "exceedsInterval rnd (rnd (acc + distance c)) t f")
    case True
    from Cons.IH[of 0] obtain js where
      js: "sorted_wrt (<) js" "set js \<subseteq> {..<length cs}"
          "keepLoop rnd t f 0 cs = map ((!) cs) js"
      by blast
    have 1: "sorted_wrt (<) (0 # map Suc js)"
      using js(1) by (simp add: sorted_wrt_map)
    have 2: "set (0 # map Suc js) \<subseteq> {..<length (c # cs)}"
      using js(2) by auto
    have 3: "keepLoop rnd t f acc (c # cs) = map ((!) (c # cs)) (0 # map Suc js)"
      using True js(3) by (simp add: comp_def)
    from 1 2 3 show ?thesis by blast
  next
    case False
    from Cons.IH[of "rnd (acc + distance c)"] obtain js where
      js: "sorted_wrt (<) js" "set js \<subseteq> {..<length cs}"
          "keepLoop rnd t f (rnd (acc + distance c)) cs = map ((!) cs) js"
      by blast
    have 1: "sorted_wrt (<) (map Suc js)"
      using js(1) by (simp add: sorted_wrt_map)
    have 2: "set (map Suc js) \<subseteq> {..<length (c # cs)}"
      using js(2) by auto
    have 3: "keepLoop rnd t f acc (c # cs) = map ((!) (c # cs)) (map Suc js)"
      using False js(3) by (simp add: comp_def)
    from 1 2 3 show ?thesis by blast
  qed
qed

lemma annotated_nth:
  assumes "j < length (p # ps)"
  shows "(\<lparr>longitude = fst p, latitude = snd p, distance = 0\<rparr> # withDistances rnd p ps) ! j =
     \<lparr>longitude = fst ((p # ps) ! j), latitude = snd ((p # ps) ! j),
      distance = (if j = 0 then 0
                  else calculateCoordinateSeparation rnd ((p # ps) ! j) ((p # ps) ! (j - 1)))\<rparr>"
proof (cases j)
  case 0
  then show ?thesis by simp
next
  case (Suc j')
  then have "j' < length ps" using assms by simp
  from withDistances_nth[OF this, of rnd p] Suc show ?thesis by simp
qed

lemma sqrt_25: "sqrt 25 = 5"
proof -
  have "sqrt 25 = sqrt ((5::real)\<^sup>2)" by simp
  also have "\<dots> = 5" by (simp only: real_sqrt_abs abs_numeral)
  finally show ?thesis .
qed

lemma sep_3_4: "calculateCoordinateSeparation binary64 (3, 4) (0, 0) = 5"
  by (simp add: calculateCoordinateSeparation_def binary64_integers sqrt_25)

lemma sep_4_5: "calculateCoordinateSeparation binary64 (4, 5) (1, 1) = 5"
  by (simp add: calculateCoordinateSeparation_def binary64_integers sqrt_25)

lemma sep_same: "calculateCoordinateSeparation binary64 a a = 0"
  by (simp add: calculateCoordinateSeparation_def binary64_0)

lemma sep_self:
  assumes "signPreserving rnd"
  shows "calculateCoordinateSeparation rnd a a = 0"
proof -
  have r0: "rnd 0 = 0" using assms by (simp add: signPreserving_def)
  show ?thesis by (simp add: calculateCoordinateSeparation_def r0)
qed

lemma identical_distances:
  assumes "signPreserving rnd"
  shows "\<forall>q \<in> set ps. q = p \<Longrightarrow> \<forall>c \<in> set (withDistances rnd p ps). distance c = 0"
proof (induction ps)
  case Nil
  then show ?case by simp
next
  case (Cons q ps)
  have q: "q = p" and rest: "\<forall>x \<in> set ps. x = p" using Cons.prems by simp_all
  have "\<forall>c \<in> set (withDistances rnd p ps). distance c = 0" by (rule Cons.IH[OF rest])
  then show ?case unfolding q by (simp add: sep_self[OF assms])
qed

lemma roundedSum_zeros:
  assumes "signPreserving rnd"
  shows "\<forall>d \<in> set ds. d = 0 \<Longrightarrow> roundedSum rnd 0 ds = 0"
proof (induction ds)
  case Nil
  then show ?case by simp
next
  case (Cons d ds)
  have "rnd 0 = 0" using assms by (simp add: signPreserving_def)
  with Cons show ?case by simp
qed

lemma identical_total:
  assumes "signPreserving rnd" "\<forall>q \<in> set ps. q = p"
  shows "totalDistance rnd (p # ps) = 0"
proof -
  have "\<forall>d \<in> set (map distance (withDistances rnd p ps)). d = 0"
    using identical_distances[OF assms] by simp
  from roundedSum_zeros[OF assms(1) this] show ?thesis
    by (simp add: totalDistance_Cons)
qed

section \<open>Condensation of one ring\<close>

text \<open>
  C2 (as amended). A ring whose total distance is 0, as that of a ring of identical
  points is, is condensed to its first point alone. Every distance is 0, so the
  accumulator stays at 0, and 0 is not greater than the interval 0 / f = 0 (nor than the
  result of a division by 0): no point after index 0 passes the strict comparison. This
  holds for every rounding that keeps 0 and the sign of a positive number, so for doubles
  as for exact arithmetic.
\<close>

theorem zero_distance_ring:
  assumes "signPreserving rnd"
    and "totalDistance rnd (p # ps) = 0 \<or> (\<forall>q \<in> set ps. q = p)"
  shows "totalDistance rnd (p # ps) = 0 \<and>
         condensePolygon rnd c m i (Some (p # ps)) =
           Inr [\<lparr>longitude = fst p, latitude = snd p, distance = 0\<rparr>]"
proof -
  have total: "totalDistance rnd (p # ps) = 0"
    using assms(2) identical_total[OF assms(1)] by blast
  have sum0: "roundedSum rnd 0 (map distance (withDistances rnd p ps)) = 0"
    using total by (simp add: totalDistance_Cons)
  have "\<forall>x \<in> set (map distance (withDistances rnd p ps)). 0 \<le> x"
    using withDistances_nonneg[OF assms(1)] by auto
  from roundedSum_zero[OF assms(1) _ this sum0]
  have "\<forall>c \<in> set (withDistances rnd p ps). distance c = 0" by simp
  from keepLoop_zero[OF assms(1) this] sum0 assms(1) total show ?thesis
    by (simp add: condensePolygon_Cons signPreserving_def)
qed

text \<open>The hypotheses hold for doubles and a ring of three identical points.\<close>

theorem zero_distance_ring_witness:
  "signPreserving binary64 \<and>
   totalDistance binary64 [(1, 1), (1, 1), (1, 1)] = 0 \<and>
   condensePolygon binary64 default_constants False 0 (Some [(1, 1), (1, 1), (1, 1)]) =
     Inr [\<lparr>longitude = 1, latitude = 1, distance = 0\<rparr>]"
proof -
  have h: "totalDistance binary64 [(1, 1), (1, 1), (1, 1)] = 0 \<or>
           (\<forall>q \<in> set [(1, 1), (1, 1)]. q = (1 :: real, 1 :: real))"
    by simp
  from zero_distance_ring[OF signPreserving_binary64 h, of default_constants False 0]
  show ?thesis by (simp add: signPreserving_binary64)
qed

text \<open>
  C2 as stated fails: of the three identical points of this ring (total distance 0) the
  result keeps one, not all three.
\<close>

theorem zero_distance_ring_counterexample:
  "condenseCoordinates binary64 default_constants (Polygon [[(1, 1), (1, 1), (1, 1)]]) =
     Inr [[\<lparr>longitude = 1, latitude = 1, distance = 0\<rparr>]]"
  by (simp add: condenseCoordinates_def rawCoordinates_def isMultiPolygon_def firstRing_def
      condensePolygon_def sep_same binary64_0 exceedsInterval_def)

text \<open>
  C4 (as amended). A ring of exactly one point is condensed, without any failure, to
  that point with distance 0, whatever the rounding, the constants, the geometry kind
  and the index.
\<close>

theorem single_point_ring:
  "condensePolygon rnd c m i (Some [p]) =
     Inr [\<lparr>longitude = fst p, latitude = snd p, distance = 0\<rparr>] \<and>
   condenseCoordinates rnd c (Polygon ([p] # holes)) =
     Inr [[\<lparr>longitude = fst p, latitude = snd p, distance = 0\<rparr>]]"
  by (simp add: condensePolygon_Cons condenseCoordinates_def rawCoordinates_def firstRing_def)

text \<open>
  C4 as stated fails on the empty ring: \<^verbatim>\<open>polygon[0][0]\<close> reads a property of
  \<^verbatim>\<open>undefined\<close>, and the call ends in a \<^verbatim>\<open>TypeError\<close>.
\<close>

theorem empty_ring_counterexample:
  "condenseCoordinates binary64 default_constants (Polygon [[]]) = Inl TypeError"
  by (simp add: condenseCoordinates_def rawCoordinates_def firstRing_def condensePolygon_def)

text \<open>
  C6. For every non-empty ring, whatever the rounding, the constants, the geometry kind
  and the index of the ring, condensation succeeds, and the first element of its result
  is the first raw coordinate of the ring (its longitude and latitude) with distance 0.
\<close>

theorem first_point_kept:
  assumes "ring \<noteq> []"
  shows "\<exists>out. condensePolygon rnd c m i (Some ring) = Inr out \<and> out \<noteq> [] \<and>
           hd out = \<lparr>longitude = fst (hd ring), latitude = snd (hd ring), distance = 0\<rparr>"
  using assms by (cases ring) (simp_all add: condensePolygon_Cons)

theorem first_point_kept_witness:
  "\<exists>out. condensePolygon binary64 default_constants True 2 (Some [(0, 0), (3, 4)]) = Inr out \<and>
         out \<noteq> [] \<and> hd out = \<lparr>longitude = 0, latitude = 0, distance = 0\<rparr>"
  using first_point_kept[of "[(0, 0), (3, 4)]" binary64 default_constants True 2] by simp

text \<open>
  C10. For every non-empty ring the result of condensation is the ring read at a strictly
  increasing list of indices: each element has the longitude and latitude of the input
  position at its index, and as its distance the separation of that position from its
  predecessor in the input ring (0 at index 0).
\<close>

theorem condensed_subsequence:
  assumes "ring \<noteq> []"
  shows "\<exists>out ks. condensePolygon rnd c m i (Some ring) = Inr out \<and>
           sorted_wrt (<) ks \<and> set ks \<subseteq> {..<length ring} \<and>
           out = map (\<lambda>j. \<lparr>longitude = fst (ring ! j), latitude = snd (ring ! j),
                           distance = (if j = 0 then 0
                                       else calculateCoordinateSeparation rnd (ring ! j)
                                              (ring ! (j - 1)))\<rparr>) ks"
proof -
  from assms obtain p ps where ring: "ring = p # ps" by (cases ring) auto
  define t where "t = roundedSum rnd 0 (map distance (withDistances rnd p ps))"
  define first where "first = \<lparr>longitude = fst p, latitude = snd p, distance = 0\<rparr>"
  define ann where "ann = first # withDistances rnd p ps"
  from keepLoop_indices[of "withDistances rnd p ps" rnd t "frequency c m i" "rnd 0"]
  obtain js where
    js: "sorted_wrt (<) js" "set js \<subseteq> {..<length (withDistances rnd p ps)}"
        "keepLoop rnd t (frequency c m i) (rnd 0) (withDistances rnd p ps) =
           map ((!) (withDistances rnd p ps)) js"
    by blast
  define ks where "ks = 0 # map Suc js"
  have out: "condensePolygon rnd c m i (Some ring) = Inr (map ((!) ann) ks)"
    unfolding ring condensePolygon_Cons ks_def ann_def first_def t_def[symmetric]
    using js(3) by (simp add: comp_def)
  have srt: "sorted_wrt (<) ks"
    unfolding ks_def using js(1) by (simp add: sorted_wrt_map)
  have bnd: "set ks \<subseteq> {..<length ring}"
    unfolding ks_def ring using js(2) by (auto simp: withDistances_length)
  have eq: "map ((!) ann) ks =
          map (\<lambda>j. \<lparr>longitude = fst (ring ! j), latitude = snd (ring ! j),
                     distance = (if j = 0 then 0
                                 else calculateCoordinateSeparation rnd (ring ! j)
                                        (ring ! (j - 1)))\<rparr>) ks"
  proof (rule map_cong[OF refl])
    fix j assume "j \<in> set ks"
    then have "j < length (p # ps)" using bnd ring by auto
    from annotated_nth[OF this] show "ann ! j =
       \<lparr>longitude = fst (ring ! j), latitude = snd (ring ! j),
        distance = (if j = 0 then 0
                    else calculateCoordinateSeparation rnd (ring ! j) (ring ! (j - 1)))\<rparr>"
      unfolding ann_def first_def ring .
  qed
  show ?thesis
    apply (rule exI[of _ "map ((!) ann) ks"])
    apply (rule exI[of _ ks])
    apply (intro conjI)
       apply (rule out)
      apply (rule srt)
     apply (rule bnd)
    apply (rule eq)
    done
qed

theorem condensed_subsequence_witness:
  "\<exists>out ks. condensePolygon binary64 default_constants False 0 (Some [(0, 0), (3, 4)]) = Inr out \<and>
           sorted_wrt (<) ks \<and> set ks \<subseteq> {..<length [(0::real, 0::real), (3, 4)]} \<and>
           out = map (\<lambda>j. \<lparr>longitude = fst ([(0::real, 0::real), (3, 4)] ! j),
                           latitude = snd ([(0::real, 0::real), (3, 4)] ! j),
                           distance = (if j = 0 then 0
                                       else calculateCoordinateSeparation binary64
                                              ([(0, 0), (3, 4)] ! j)
                                              ([(0, 0), (3, 4)] ! (j - 1)))\<rparr>) ks"
  by (rule condensed_subsequence[of "[(0, 0), (3, 4)]" binary64 default_constants False 0]) simp

section \<open>MultiPolygon: sorting and capping\<close>

lemma sortPolygons_Inr:
  assumes "sortPolygons polygons = Inr ordered"
  shows "mset ordered = mset polygons"
    and "sorted_wrt (\<lambda>a b. length (hd b) \<le> length (hd a)) ordered"
proof -
  have ord: "ordered = sort_key (\<lambda>p. - int (length (hd p))) polygons"
    using assms by (simp add: sortPolygons_def split: if_splits)
  show "mset ordered = mset polygons" unfolding ord by simp
  have "sorted (map (\<lambda>p. - int (length (hd p))) ordered)"
    unfolding ord by (rule sorted_sort_key)
  then show "sorted_wrt (\<lambda>a b. length (hd b) \<le> length (hd a)) ordered"
    by (simp add: sorted_map)
qed

lemma sortPolygons_success:
  assumes "\<forall>p \<in> set polygons. p \<noteq> []"
  shows "\<exists>ordered. sortPolygons polygons = Inr ordered"
  using assms by (auto simp: sortPolygons_def)

lemma keptPolygons_Inr:
  assumes "keptPolygons c polygons = Inr kept"
  shows "\<exists>discarded. mset (kept @ discarded) = mset polygons \<and>
           sorted_wrt (\<lambda>a b. length (hd b) \<le> length (hd a)) (kept @ discarded) \<and>
           length kept = min (MAX_POLYGON_COUNT c) (length polygons)"
proof -
  from assms obtain ordered where
    ord: "sortPolygons polygons = Inr ordered" and
    kept: "kept = take (MAX_POLYGON_COUNT c) ordered"
    by (auto simp: keptPolygons_def split: sum.splits)
  have app: "kept @ drop (MAX_POLYGON_COUNT c) ordered = ordered"
    unfolding kept by simp
  have len: "length ordered = length polygons"
    using sortPolygons_Inr(1)[OF ord] by (metis size_mset)
  show ?thesis
    apply (rule exI[of _ "drop (MAX_POLYGON_COUNT c) ordered"])
    unfolding app
    using sortPolygons_Inr[OF ord] len kept by (simp add: min.commute)
qed

lemma keptPolygons_success:
  assumes "\<forall>p \<in> set polygons. p \<noteq> []"
  shows "\<exists>kept. keptPolygons c polygons = Inr kept \<and> set kept \<subseteq> set polygons"
proof -
  from sortPolygons_success[OF assms] obtain ordered where
    ord: "sortPolygons polygons = Inr ordered" by blast
  have "set ordered = set polygons"
    using sortPolygons_Inr(1)[OF ord] by (metis set_mset_mset)
  then have "set (take (MAX_POLYGON_COUNT c) ordered) \<subseteq> set polygons"
    using set_take_subset by fastforce
  with ord show ?thesis by (simp add: keptPolygons_def)
qed

lemma condenseCoordinates_MultiPolygon:
  assumes "keptPolygons c polygons = Inr kept"
  shows "condenseCoordinates rnd c (MultiPolygon polygons) =
           mapPolygons rnd c True 0 (map Some (concat kept))"
  using assms by (simp add: condenseCoordinates_def rawCoordinates_def isMultiPolygon_def)


lemma double_less_5:
  "double 7205759403792794 (- 4) < 5" "double 7205759403792794 (- 5) < 5"
  "double 7205759403792794 (- 6) < 5"
  by (simp_all add: double_def power_int_minus)




text \<open>
  C3 (as amended). For a MultiPolygon in which every polygon has a ring and every ring a
  point, condensation succeeds; it keeps \<open>min MAX_POLYGON_COUNT K\<close> of the \<open>K\<close> polygons
  and returns one condensed ring for every ring of a kept polygon. The number of rings
  is that of the kept polygons when every polygon has exactly one ring.
\<close>

theorem multipolygon_ring_count:
  assumes "\<forall>p \<in> set polygons. p \<noteq> [] \<and> (\<forall>r \<in> set p. r \<noteq> [])"
  shows "\<exists>kept outs. keptPolygons c polygons = Inr kept \<and>
           length kept = min (MAX_POLYGON_COUNT c) (length polygons) \<and>
           condenseCoordinates rnd c (MultiPolygon polygons) = Inr outs \<and>
           length outs = sum_list (map length kept) \<and>
           ((\<forall>p \<in> set polygons. length p = 1) \<longrightarrow>
              length outs = min (MAX_POLYGON_COUNT c) (length polygons))"
proof -
  have ne: "\<forall>p \<in> set polygons. p \<noteq> []" using assms by blast
  from keptPolygons_success[OF ne, of c] obtain kept where
    k: "keptPolygons c polygons = Inr kept" and sub: "set kept \<subseteq> set polygons" by blast
  from keptPolygons_Inr[OF k] have len: "length kept = min (MAX_POLYGON_COUNT c) (length polygons)"
    by blast
  have "\<forall>r \<in> set (map Some (concat kept)). \<exists>ring. r = Some ring \<and> ring \<noteq> []"
    using sub assms by auto
  from mapPolygons_success[OF this, of rnd c True 0] obtain outs where
    outs: "mapPolygons rnd c True 0 (map Some (concat kept)) = Inr outs" by blast
  have cond: "condenseCoordinates rnd c (MultiPolygon polygons) = Inr outs"
    using condenseCoordinates_MultiPolygon[OF k] outs by simp
  have n: "length outs = sum_list (map length kept)"
    using mapPolygons_nth[OF outs] by (simp add: length_concat)
  have one: "length outs = min (MAX_POLYGON_COUNT c) (length polygons)"
    if "\<forall>p \<in> set polygons. length p = 1"
  proof -
    have "\<forall>p \<in> set kept. length p = 1" using that sub by blast
    then have "sum_list (map length kept) = length kept"
      by (induction kept) simp_all
    with n len show ?thesis by simp
  qed
  show ?thesis
    apply (rule exI[of _ kept])
    apply (rule exI[of _ outs])
    using k len cond n one by blast
qed

text \<open>The hypothesis holds for one polygon of two rings.\<close>

theorem multipolygon_ring_count_witness:
  "\<exists>kept outs. keptPolygons default_constants [[[(0, 0), (3, 4)], [(1, 1), (4, 5)]]] = Inr kept \<and>
     length kept = 1 \<and>
     condenseCoordinates binary64 default_constants
       (MultiPolygon [[[(0, 0), (3, 4)], [(1, 1), (4, 5)]]]) = Inr outs \<and>
     length outs = sum_list (map length kept)"
  using multipolygon_ring_count[of "[[[(0, 0), (3, 4)], [(1, 1), (4, 5)]]]" default_constants
      binary64]
  by (simp add: default_constants_def)

text \<open>
  C3 as stated fails: \<^verbatim>\<open>rawCoordinates.push(...polygon)\<close> pushes every ring of a kept
  polygon, so one polygon (\<open>K = 1\<close>) with an outer ring and a second ring gives two
  condensed rings.
\<close>

theorem multipolygon_ring_count_counterexample:
  "condenseCoordinates binary64 default_constants
     (MultiPolygon [[[(0, 0), (3, 4)], [(1, 1), (4, 5)]]]) =
     Inr [[\<lparr>longitude = 0, latitude = 0, distance = 0\<rparr>,
           \<lparr>longitude = 3, latitude = 4, distance = 5\<rparr>],
          [\<lparr>longitude = 1, latitude = 1, distance = 0\<rparr>,
           \<lparr>longitude = 4, latitude = 5, distance = 5\<rparr>]]"
proof -
  have k: "keptPolygons default_constants [[[(0, 0), (3, 4)], [(1, 1), (4, 5)]]] =
             Inr [[[(0, 0), (3, 4)], [(1, 1), (4, 5)]]]"
    by (simp add: keptPolygons_def sortPolygons_def default_constants_def)
  show ?thesis
    unfolding condenseCoordinates_MultiPolygon[OF k]
    by (simp add: condensePolygon_def sep_3_4 sep_4_5 binary64_integers binary64_0
        binary64_1_40 double_less_5 exceedsInterval_def frequency_def default_constants_def)
qed

section \<open>The encoded canonical name\<close>

lemma comma_not_whitespace: "\<not> isWhitespace (CHR '','')"
  by (simp add: isWhitespace_def)

lemma plus_not_whitespace: "\<not> isWhitespace (CHR ''+'')"
  by (simp add: isWhitespace_def)

lemma replaceCommaWhitespace_no_comma:
  "CHR '','' \<notin> set a \<Longrightarrow> replaceCommaWhitespace (a @ b) = a @ replaceCommaWhitespace b"
  by (induction a) auto

lemma replaceCommaWhitespace_id:
  "CHR '','' \<notin> set a \<Longrightarrow> replaceCommaWhitespace a = a"
  using replaceCommaWhitespace_no_comma[of a "[]"] by simp

lemma replaceCommaWhitespace_comma_ws:
  "isWhitespace w \<Longrightarrow> replaceCommaWhitespace (CHR '','' # w # b) = CHR '','' # replaceCommaWhitespace b"
  using comma_not_whitespace by (cases "w = CHR '',''") auto

lemma replaceCommaWhitespace_ws:
  "isWhitespace w \<Longrightarrow> replaceCommaWhitespace (w # b) = w # replaceCommaWhitespace b"
  using comma_not_whitespace by auto

lemma dropWhile_replaceCommaWhitespace:
  "dropWhile isWhitespace (replaceCommaWhitespace b) = replaceCommaWhitespace (dropWhile isWhitespace b)"
proof (induction b)
  case Nil
  then show ?case by simp
next
  case (Cons ch b)
  show ?case
  proof (cases "isWhitespace ch")
    case True
    then show ?thesis using Cons.IH by (simp add: replaceCommaWhitespace_ws del: replaceCommaWhitespace.simps)
  next
    case False
    have "replaceCommaWhitespace (ch # b) \<noteq> [] \<and> hd (replaceCommaWhitespace (ch # b)) = ch"
      by (auto split: list.splits)
    then obtain r where r: "replaceCommaWhitespace (ch # b) = ch # r"
      by (cases "replaceCommaWhitespace (ch # b)") auto
    have 1: "dropWhile isWhitespace (ch # r) = ch # r" using False by simp
    have 2: "dropWhile isWhitespace (ch # b) = ch # b" using False by simp
    show ?thesis unfolding 2 unfolding r 1 ..
  qed
qed

lemma dropWhile_append_keep:
  assumes "y = [] \<or> \<not> P (hd y)"
  shows "dropWhile P (x @ y) = dropWhile P x @ y"
  using assms by (induction x) (auto simp: dropWhile_eq_Cons_conv hd_conv_nth intro: dropWhile_eq_self_iff[THEN iffD2])

lemma replaceWhitespace_append:
  assumes "y = [] \<or> \<not> isWhitespace (hd y)"
  shows "replaceWhitespace (x @ y) = replaceWhitespace x @ replaceWhitespace y"
  using assms
proof (induction x rule: replaceWhitespace.induct)
  case 1
  then show ?case by simp
next
  case (2 ch rest)
  show ?case
  proof (cases "isWhitespace ch")
    case True
    have "dropWhile isWhitespace (rest @ y) = dropWhile isWhitespace rest @ y"
      using "2.prems" by (rule dropWhile_append_keep)
    then show ?thesis using True "2.IH"(1)[OF True "2.prems"] by simp
  next
    case False
    then show ?thesis using "2.IH"(2)[OF False "2.prems"] by simp
  qed
qed

lemma replaceWhitespace_append_left:
  assumes "x = [] \<or> \<not> isWhitespace (last x)"
  shows "replaceWhitespace (x @ y) = replaceWhitespace x @ replaceWhitespace y"
  using assms
proof (induction x rule: replaceWhitespace.induct)
  case 1
  then show ?case by simp
next
  case (2 ch rest)
  show ?case
  proof (cases "isWhitespace ch")
    case True
    then have ne: "rest \<noteq> []" and l: "\<not> isWhitespace (last rest)"
      using "2.prems" by (auto split: if_splits)
    define d where "d = dropWhile isWhitespace rest"
    have dne: "d \<noteq> []" unfolding d_def using ne l
      by (metis dropWhile_eq_Nil_conv last_in_set)
    have dl: "last d = last rest" unfolding d_def using dne
      by (metis d_def last_appendR takeWhile_dropWhile_id)
    have "dropWhile isWhitespace (rest @ y) = d @ y"
      unfolding d_def using dne d_def by (metis dropWhile_append1 dropWhile_eq_Nil_conv)
    moreover have "replaceWhitespace (d @ y) = replaceWhitespace d @ replaceWhitespace y"
      using "2.IH"(1)[OF True] dl l unfolding d_def by simp
    ultimately show ?thesis using True by (simp add: d_def)
  next
    case False
    have "rest = [] \<or> \<not> isWhitespace (last rest)"
      using "2.prems" by (auto split: if_splits)
    then show ?thesis using False "2.IH"(2)[OF False] by simp
  qed
qed

lemma replaceWhitespace_no_whitespace:
  "ch \<in> set (replaceWhitespace s) \<Longrightarrow> \<not> isWhitespace ch"
  by (induction s rule: replaceWhitespace.induct) (auto simp: plus_not_whitespace split: if_splits)

lemma encoded_no_comma: "CHR '','' \<notin> set a \<Longrightarrow> buildEncodedCanonicalName a = replaceWhitespace a"
  by (simp add: buildEncodedCanonicalName_def replaceCommaWhitespace_id)

lemma encoded_after_comma:
  assumes "CHR '','' \<notin> set a" "isWhitespace w"
  shows "buildEncodedCanonicalName (a @ CHR '','' # w # b) =
           buildEncodedCanonicalName a @ CHR '','' # buildEncodedCanonicalName b"
proof -
  have "replaceCommaWhitespace (a @ CHR '','' # w # b) =
          a @ replaceCommaWhitespace (CHR '','' # w # b)"
    by (rule replaceCommaWhitespace_no_comma[OF assms(1)])
  also have "\<dots> = a @ CHR '','' # replaceCommaWhitespace b"
    by (simp only: replaceCommaWhitespace_comma_ws[OF assms(2)])
  finally have "replaceCommaWhitespace (a @ CHR '','' # w # b) =
          a @ CHR '','' # replaceCommaWhitespace b" .
  moreover have "replaceWhitespace (a @ CHR '','' # replaceCommaWhitespace b) =
      replaceWhitespace a @ replaceWhitespace (CHR '','' # replaceCommaWhitespace b)"
    by (rule replaceWhitespace_append) (simp add: comma_not_whitespace)
  ultimately show ?thesis
    using assms(1) by (simp add: buildEncodedCanonicalName_def replaceCommaWhitespace_id comma_not_whitespace)
qed

lemma encoded_other_whitespace:
  assumes "CHR '','' \<notin> set a" "a = [] \<or> \<not> isWhitespace (last a)" "isWhitespace w"
  shows "buildEncodedCanonicalName (a @ w # b) =
           buildEncodedCanonicalName a @ CHR ''+'' # buildEncodedCanonicalName (dropWhile isWhitespace b)"
proof -
  have "replaceCommaWhitespace (a @ w # b) = a @ replaceCommaWhitespace (w # b)"
    by (rule replaceCommaWhitespace_no_comma[OF assms(1)])
  also have "\<dots> = a @ w # replaceCommaWhitespace b"
    by (simp only: replaceCommaWhitespace_ws[OF assms(3)])
  finally have "replaceCommaWhitespace (a @ w # b) = a @ w # replaceCommaWhitespace b" .
  moreover have "replaceWhitespace (a @ w # replaceCommaWhitespace b) =
      replaceWhitespace a @ replaceWhitespace (w # replaceCommaWhitespace b)"
    using assms(2) by (rule replaceWhitespace_append_left)
  moreover have "replaceWhitespace (w # replaceCommaWhitespace b) =
      CHR ''+'' # replaceWhitespace (replaceCommaWhitespace (dropWhile isWhitespace b))"
    using assms(3) by (simp add: dropWhile_replaceCommaWhitespace)
  ultimately show ?thesis
    using assms(1) by (simp add: buildEncodedCanonicalName_def replaceCommaWhitespace_id)
qed

text \<open>
  What the encoding does with the first character of a name, case by case: the two
  replacements as one pass from left to right.
\<close>

lemma encoded_Nil: "buildEncodedCanonicalName [] = []"
  by (simp add: buildEncodedCanonicalName_def)

lemma encoded_other:
  assumes "\<not> isWhitespace ch" "ch \<noteq> CHR '',''"
  shows "buildEncodedCanonicalName (ch # b) = ch # buildEncodedCanonicalName b"
  using assms by (simp add: buildEncodedCanonicalName_def)

lemma encoded_whitespace:
  assumes "isWhitespace w"
  shows "buildEncodedCanonicalName (w # b) =
           CHR ''+'' # buildEncodedCanonicalName (dropWhile isWhitespace b)"
  using encoded_other_whitespace[of "[]" w b] assms by (simp add: encoded_Nil)

lemma encoded_comma_whitespace:
  assumes "isWhitespace w"
  shows "buildEncodedCanonicalName (CHR '','' # w # b) = CHR '','' # buildEncodedCanonicalName b"
  using encoded_after_comma[of "[]" w b] assms by (simp add: encoded_Nil)

lemma replaceCommaWhitespace_comma_other:
  assumes "b = [] \<or> (\<not> isWhitespace (hd b) \<and> hd b \<noteq> CHR '','')"
  shows "replaceCommaWhitespace (CHR '','' # b) = CHR '','' # replaceCommaWhitespace b"
  using assms by (cases b) auto

lemma encoded_comma_other:
  assumes "b = [] \<or> (\<not> isWhitespace (hd b) \<and> hd b \<noteq> CHR '','')"
  shows "buildEncodedCanonicalName (CHR '','' # b) = CHR '','' # buildEncodedCanonicalName b"
  unfolding buildEncodedCanonicalName_def replaceCommaWhitespace_comma_other[OF assms]
  by (simp add: comma_not_whitespace)

lemma replaceCommaWhitespace_commas_kept:
  assumes "dropWhile (\<lambda>x. x = CHR '','') b = [] \<or> \<not> isWhitespace (hd (dropWhile (\<lambda>x. x = CHR '','') b))"
  shows "replaceCommaWhitespace (CHR '','' # CHR '','' # b) =
           CHR '','' # replaceCommaWhitespace (CHR '','' # b)"
  using assms by (cases "dropWhile (\<lambda>x. x = CHR '','') b") (simp_all del: dropWhile_eq_Cons_conv dropWhile_eq_Nil_conv)

lemma replaceCommaWhitespace_commas_merged:
  assumes "dropWhile (\<lambda>x. x = CHR '','') b \<noteq> []" "isWhitespace (hd (dropWhile (\<lambda>x. x = CHR '','') b))"
  shows "replaceCommaWhitespace (CHR '','' # CHR '','' # b) = replaceCommaWhitespace (CHR '','' # b)"
  using assms by (cases "dropWhile (\<lambda>x. x = CHR '','') b") (simp_all del: dropWhile_eq_Cons_conv dropWhile_eq_Nil_conv)

lemma encoded_commas_kept:
  assumes "dropWhile (\<lambda>x. x = CHR '','') b = [] \<or> \<not> isWhitespace (hd (dropWhile (\<lambda>x. x = CHR '','') b))"
  shows "buildEncodedCanonicalName (CHR '','' # CHR '','' # b) =
           CHR '','' # buildEncodedCanonicalName (CHR '','' # b)"
  unfolding buildEncodedCanonicalName_def replaceCommaWhitespace_commas_kept[OF assms]
  by (simp add: comma_not_whitespace)

lemma encoded_commas_merged:
  assumes "dropWhile (\<lambda>x. x = CHR '','') b \<noteq> []" "isWhitespace (hd (dropWhile (\<lambda>x. x = CHR '','') b))"
  shows "buildEncodedCanonicalName (CHR '','' # CHR '','' # b) =
           buildEncodedCanonicalName (CHR '','' # b)"
  unfolding buildEncodedCanonicalName_def replaceCommaWhitespace_commas_merged[OF assms] ..


text \<open>
  The seven equations cover every name and leave no choice: a function that satisfies
  them is the encoding.
\<close>

lemma encoding_determined:
  fixes f :: "string \<Rightarrow> string"
  assumes nil: "f [] = []"
    and other: "\<And>ch b. \<not> isWhitespace ch \<Longrightarrow> ch \<noteq> CHR '','' \<Longrightarrow> f (ch # b) = ch # f b"
    and ws: "\<And>w b. isWhitespace w \<Longrightarrow> f (w # b) = CHR ''+'' # f (dropWhile isWhitespace b)"
    and cws: "\<And>w b. isWhitespace w \<Longrightarrow> f (CHR '','' # w # b) = CHR '','' # f b"
    and cother: "\<And>b. b = [] \<or> (\<not> isWhitespace (hd b) \<and> hd b \<noteq> CHR '','') \<Longrightarrow>
                   f (CHR '','' # b) = CHR '','' # f b"
    and kept: "\<And>b. dropWhile (\<lambda>x. x = CHR '','') b = [] \<or>
                    \<not> isWhitespace (hd (dropWhile (\<lambda>x. x = CHR '','') b)) \<Longrightarrow>
                 f (CHR '','' # CHR '','' # b) = CHR '','' # f (CHR '','' # b)"
    and merged: "\<And>b. dropWhile (\<lambda>x. x = CHR '','') b \<noteq> [] \<and>
                    isWhitespace (hd (dropWhile (\<lambda>x. x = CHR '','') b)) \<Longrightarrow>
                 f (CHR '','' # CHR '','' # b) = f (CHR '','' # b)"
  shows "f s = buildEncodedCanonicalName s"
proof (induction s rule: length_induct)
  case (1 s)
  then have IH: "\<And>t. length t < length s \<Longrightarrow> f t = buildEncodedCanonicalName t" by blast
  show ?case
  proof (cases s)
    case Nil
    then show ?thesis by (simp add: nil encoded_Nil)
  next
    case (Cons ch b)
    have b: "f b = buildEncodedCanonicalName b" using IH[of b] Cons by simp
    consider (o) "\<not> isWhitespace ch" "ch \<noteq> CHR '',''" | (w) "isWhitespace ch" | (c) "ch = CHR '',''"
      by blast
    then show ?thesis
    proof cases
      case o
      show ?thesis unfolding Cons using other[OF o] encoded_other[OF o] b by simp
    next
      case w
      have "length (dropWhile isWhitespace b) \<le> length b" by (rule length_dropWhile_le)
      then have "f (dropWhile isWhitespace b) = buildEncodedCanonicalName (dropWhile isWhitespace b)"
        using IH[of "dropWhile isWhitespace b"] Cons by simp
      then show ?thesis unfolding Cons using ws[OF w] encoded_whitespace[OF w] by simp
    next
      case c
      show ?thesis
      proof (cases b)
        case Nil
        then show ?thesis unfolding Cons c using cother[of "[]"] encoded_comma_other[of "[]"] nil
          by (simp add: encoded_Nil)
      next
        case inner: (Cons x b')
        consider (xo) "\<not> isWhitespace x" "x \<noteq> CHR '',''" | (xw) "isWhitespace x" | (xc) "x = CHR '',''"
          by blast
        then show ?thesis
        proof cases
          case xo
          then have h: "b = [] \<or> (\<not> isWhitespace (hd b) \<and> hd b \<noteq> CHR '','')"
            using inner by simp
          show ?thesis unfolding Cons c using cother[OF h] encoded_comma_other[OF h] b by simp
        next
          case xw
          have "f b' = buildEncodedCanonicalName b'" using IH[of b'] Cons inner by simp
          then show ?thesis unfolding Cons c inner
            using cws[OF xw] encoded_comma_whitespace[OF xw] by simp
        next
          case xc
          let ?r = "dropWhile (\<lambda>x. x = CHR '','') b'"
          have b2: "f (CHR '','' # b') = buildEncodedCanonicalName (CHR '','' # b')"
            using b inner xc by simp
          show ?thesis
          proof (cases "?r \<noteq> [] \<and> isWhitespace (hd ?r)")
            case True
            then have t1: "?r \<noteq> []" and t2: "isWhitespace (hd ?r)" by blast+
            show ?thesis unfolding Cons c inner xc
              using merged[OF True] encoded_commas_merged[OF t1 t2] b2 by simp
          next
            case False
            then have h: "?r = [] \<or> \<not> isWhitespace (hd ?r)" by blast
            show ?thesis unfolding Cons c inner xc
              using kept[OF h] encoded_commas_kept[OF h] b2 by simp
          qed
        qed
      qed
    qed
  qed
qed

text \<open>
  C9 (as amended). For every name, read from left to right: a character that is neither
  whitespace nor a comma is kept; a run of whitespace, also directly before a comma,
  becomes one plus; after a comma one whitespace character is stripped and the comma
  kept (what is left of a longer run becomes a plus); a comma followed by another
  character, or by nothing, is kept; adjacent commas that no whitespace follows are all
  kept, and of adjacent commas that whitespace follows the last one is. No whitespace is
  left in the result. In particular the two names of the tests are encoded as the claim
  says.
\<close>

theorem encoded_canonical_name:
  "buildEncodedCanonicalName [] = [] \<and>
   (\<not> isWhitespace ch \<and> ch \<noteq> CHR '','' \<longrightarrow>
      buildEncodedCanonicalName (ch # a) = ch # buildEncodedCanonicalName a) \<and>
   (isWhitespace w \<longrightarrow>
      buildEncodedCanonicalName (w # b) =
        CHR ''+'' # buildEncodedCanonicalName (dropWhile isWhitespace b)) \<and>
   (isWhitespace w \<longrightarrow>
      buildEncodedCanonicalName (CHR '','' # w # b) = CHR '','' # buildEncodedCanonicalName b) \<and>
   (d = [] \<or> (\<not> isWhitespace (hd d) \<and> hd d \<noteq> CHR '','') \<longrightarrow>
      buildEncodedCanonicalName (CHR '','' # d) = CHR '','' # buildEncodedCanonicalName d) \<and>
   (dropWhile (\<lambda>x. x = CHR '','') k = [] \<or>
    \<not> isWhitespace (hd (dropWhile (\<lambda>x. x = CHR '','') k)) \<longrightarrow>
      buildEncodedCanonicalName (CHR '','' # CHR '','' # k) =
        CHR '','' # buildEncodedCanonicalName (CHR '','' # k)) \<and>
   (dropWhile (\<lambda>x. x = CHR '','') m \<noteq> [] \<and>
    isWhitespace (hd (dropWhile (\<lambda>x. x = CHR '','') m)) \<longrightarrow>
      buildEncodedCanonicalName (CHR '','' # CHR '','' # m) =
        buildEncodedCanonicalName (CHR '','' # m)) \<and>
   (\<forall>ch \<in> set (buildEncodedCanonicalName s). \<not> isWhitespace ch) \<and>
   buildEncodedCanonicalName ''SY7, Shropshire, England'' = ''SY7,Shropshire,England'' \<and>
   buildEncodedCanonicalName ''Nottingham Forest, Great Britain, United Kingdom'' =
     ''Nottingham+Forest,Great+Britain,United+Kingdom''"
proof (intro conjI impI ballI)
  show "buildEncodedCanonicalName [] = []" by (rule encoded_Nil)
next
  assume "\<not> isWhitespace ch \<and> ch \<noteq> CHR '',''"
  then show "buildEncodedCanonicalName (ch # a) = ch # buildEncodedCanonicalName a"
    using encoded_other by blast
next
  assume "isWhitespace w"
  then show "buildEncodedCanonicalName (w # b) =
        CHR ''+'' # buildEncodedCanonicalName (dropWhile isWhitespace b)"
    by (rule encoded_whitespace)
next
  assume "isWhitespace w"
  then show "buildEncodedCanonicalName (CHR '','' # w # b) = CHR '','' # buildEncodedCanonicalName b"
    by (rule encoded_comma_whitespace)
next
  assume "d = [] \<or> (\<not> isWhitespace (hd d) \<and> hd d \<noteq> CHR '','')"
  then show "buildEncodedCanonicalName (CHR '','' # d) = CHR '','' # buildEncodedCanonicalName d"
    by (rule encoded_comma_other)
next
  assume "dropWhile (\<lambda>x. x = CHR '','') k = [] \<or>
    \<not> isWhitespace (hd (dropWhile (\<lambda>x. x = CHR '','') k))"
  then show "buildEncodedCanonicalName (CHR '','' # CHR '','' # k) =
        CHR '','' # buildEncodedCanonicalName (CHR '','' # k)"
    by (rule encoded_commas_kept)
next
  assume "dropWhile (\<lambda>x. x = CHR '','') m \<noteq> [] \<and>
    isWhitespace (hd (dropWhile (\<lambda>x. x = CHR '','') m))"
  then show "buildEncodedCanonicalName (CHR '','' # CHR '','' # m) =
        buildEncodedCanonicalName (CHR '','' # m)"
    using encoded_commas_merged by blast
next
  fix ch assume "ch \<in> set (buildEncodedCanonicalName s)"
  then show "\<not> isWhitespace ch"
    unfolding buildEncodedCanonicalName_def by (rule replaceWhitespace_no_whitespace)
next
  show "buildEncodedCanonicalName ''SY7, Shropshire, England'' = ''SY7,Shropshire,England''"
    by (simp add: buildEncodedCanonicalName_def isWhitespace_def)
next
  show "buildEncodedCanonicalName ''Nottingham Forest, Great Britain, United Kingdom'' =
     ''Nottingham+Forest,Great+Britain,United+Kingdom''"
    by (simp add: buildEncodedCanonicalName_def isWhitespace_def)
qed

text \<open>The hypotheses hold for parts of the names of the tests and for two names with adjacent commas.\<close>

theorem encoded_canonical_name_witness:
  "buildEncodedCanonicalName (CHR ''S'' # ''Y7'') = CHR ''S'' # buildEncodedCanonicalName ''Y7'' \<and>
   buildEncodedCanonicalName (CHR '' '' # ''Shropshire'') =
     CHR ''+'' # buildEncodedCanonicalName (dropWhile isWhitespace ''Shropshire'') \<and>
   buildEncodedCanonicalName (CHR '','' # CHR '' '' # ''Shropshire'') =
     CHR '','' # buildEncodedCanonicalName ''Shropshire'' \<and>
   buildEncodedCanonicalName (CHR '','' # ''UK'') = CHR '','' # buildEncodedCanonicalName ''UK'' \<and>
   buildEncodedCanonicalName (CHR '','' # CHR '','' # ''UK'') =
     CHR '','' # buildEncodedCanonicalName (CHR '','' # ''UK'') \<and>
   buildEncodedCanonicalName (CHR '','' # CHR '','' # '' UK'') =
     buildEncodedCanonicalName (CHR '','' # '' UK'') \<and>
   \<not> isWhitespace (buildEncodedCanonicalName ''Belsize Park'' ! 7)"
proof -
  have h: "\<not> isWhitespace CHR ''S'' \<and> CHR ''S'' \<noteq> CHR '',''" "isWhitespace CHR '' ''"
    "''UK'' = [] \<or> (\<not> isWhitespace (hd ''UK'') \<and> hd ''UK'' \<noteq> CHR '','')"
    "dropWhile (\<lambda>x. x = CHR '','') ''UK'' = [] \<or>
       \<not> isWhitespace (hd (dropWhile (\<lambda>x. x = CHR '','') ''UK''))"
    "dropWhile (\<lambda>x. x = CHR '','') '' UK'' \<noteq> [] \<and>
       isWhitespace (hd (dropWhile (\<lambda>x. x = CHR '','') '' UK''))"
    by (simp_all add: isWhitespace_def)
  have m: "buildEncodedCanonicalName ''Belsize Park'' ! 7 \<in> set (buildEncodedCanonicalName ''Belsize Park'')"
    by (simp add: buildEncodedCanonicalName_def isWhitespace_def)
  from encoded_canonical_name[of "CHR ''S''" "''Y7''" "CHR '' ''" "''Shropshire''" "''UK''" "''UK''"
      "'' UK''" "''Belsize Park''"] h m
  show ?thesis by blast
qed

text \<open>
  C9 as stated fails: the whitespace before a comma is not stripped. Only
  \<^verbatim>\<open>/,+\s/\<close> removes anything, and it matches whitespace after commas.
\<close>

theorem encoded_canonical_name_counterexample:
  "buildEncodedCanonicalName ''Bath ,UK'' = ''Bath+,UK''"
  by (simp add: buildEncodedCanonicalName_def isWhitespace_def)

section \<open>The shape of the rings\<close>

lemma fold_append_concat:
  "fold (\<lambda>x acc. acc @ g x) xs init = init @ concat (map g xs)"
  by (induction xs arbitrary: init) simp_all

lemma polygonPath_eq:
  "polygonPath other polygon =
     ''&path=color:0x00000077|weight:1|fillcolor:0xAA000033'' @ concat (map (specPointText other) polygon)"
proof -
  have "polygonPath other polygon =
          fold (\<lambda>x acc. acc @ specPointText other x) polygon
            ''&path=color:0x00000077|weight:1|fillcolor:0xAA000033''"
    unfolding polygonPath_def specPointText_def by simp
  then show ?thesis by (simp only: fold_append_concat)
qed

lemma buildLocationShape_eq:
  assumes "rings \<noteq> []"
  shows "buildLocationShape other location rings =
           Inr (style @ concat (map (specRingFragment other location) rings))"
proof -
  have step: "(\<lambda>polygon fullPath.
                  if length polygon > 2
                  then fullPath @ polygonPath other polygon
                         @ ''|'' @ numberToString other (latitude (polygon ! 0))
                         @ '','' @ numberToString other (longitude (polygon ! 0))
                  else fullPath @ ''&center=''
                         @ buildEncodedCanonicalName (canonical_name location))
              = (\<lambda>polygon fullPath. fullPath @ specRingFragment other location polygon)"
  proof (intro ext)
    fix polygon :: "Coordinate list" and fullPath :: string
    show "(if length polygon > 2
           then fullPath @ polygonPath other polygon
                  @ ''|'' @ numberToString other (latitude (polygon ! 0))
                  @ '','' @ numberToString other (longitude (polygon ! 0))
           else fullPath @ ''&center=''
                  @ buildEncodedCanonicalName (canonical_name location))
          = fullPath @ specRingFragment other location polygon"
    proof (cases "length polygon > 2")
      case True
      then have "polygon \<noteq> []" by auto
      then have "polygon ! 0 = hd polygon" by (simp add: hd_conv_nth)
      then show ?thesis using True
        by (simp add: specRingFragment_def polygonPath_eq specPointText_def)
    next
      case False
      then show ?thesis by (simp add: specRingFragment_def)
    qed
  qed
  show ?thesis
    using assms unfolding buildLocationShape_def step fold_append_concat by simp
qed

lemma numberToString_small:
  "numberToString other 1 = ''1''" "numberToString other 2 = ''2''"
  "numberToString other 3 = ''3''" "numberToString other 4 = ''4''"
  by (simp_all add: numberToString_def)

text \<open>
  C8. \<open>buildLocationShape\<close> fails with \<open>NO_COORDINATES_FOUND\<close> exactly when the list of
  rings is empty. Otherwise it returns the styling prefix followed, ring by ring and in
  order, by the fragment of each ring: the closed path of a ring of more than 2 points,
  the \<^verbatim>\<open>&center=\<close> of the encoded name for a ring of 2 points or fewer. The ring of the
  four points (1,1), (2,2), (3,3), (4,4) gives a path that ends in
  \<^verbatim>\<open>|1,1|2,2|3,3|4,4|1,1\<close>.
\<close>

theorem shape_of_rings:
  "(buildLocationShape other location rings = Inl (Thrown NO_COORDINATES_FOUND) \<longleftrightarrow> rings = []) \<and>
   (rings \<noteq> [] \<longrightarrow>
      buildLocationShape other location rings =
        Inr (style @ concat (map (specRingFragment other location) rings))) \<and>
   buildLocationShape other location
     [[\<lparr>longitude = 1, latitude = 1, distance = d1\<rparr>,
       \<lparr>longitude = 2, latitude = 2, distance = d2\<rparr>,
       \<lparr>longitude = 3, latitude = 3, distance = d3\<rparr>,
       \<lparr>longitude = 4, latitude = 4, distance = d4\<rparr>]] =
     Inr (style @ ''&path=color:0x00000077|weight:1|fillcolor:0xAA000033''
            @ ''|1,1|2,2|3,3|4,4|1,1'')"
proof (intro conjI impI)
  show "buildLocationShape other location rings = Inl (Thrown NO_COORDINATES_FOUND) \<longleftrightarrow> rings = []"
    by (cases "rings = []") (simp_all add: buildLocationShape_eq, simp add: buildLocationShape_def)
next
  assume "rings \<noteq> []"
  then show "buildLocationShape other location rings =
        Inr (style @ concat (map (specRingFragment other location) rings))"
    by (rule buildLocationShape_eq)
next
  show "buildLocationShape other location
     [[\<lparr>longitude = 1, latitude = 1, distance = d1\<rparr>,
       \<lparr>longitude = 2, latitude = 2, distance = d2\<rparr>,
       \<lparr>longitude = 3, latitude = 3, distance = d3\<rparr>,
       \<lparr>longitude = 4, latitude = 4, distance = d4\<rparr>]] =
     Inr (style @ ''&path=color:0x00000077|weight:1|fillcolor:0xAA000033''
            @ ''|1,1|2,2|3,3|4,4|1,1'')"
    by (simp add: buildLocationShape_eq specRingFragment_def specPointText_def numberToString_small)
qed

text \<open>The ring list of the test that holds one empty ring is not empty.\<close>

theorem shape_of_rings_witness:
  "buildLocationShape noText \<lparr>canonical_name = ''Belsize Park'', target_type = None\<rparr> [[]] =
     Inr (style @ ''&center=Belsize+Park'')"
  using shape_of_rings[of noText "\<lparr>canonical_name = ''Belsize Park'', target_type = None\<rparr>" "[[]]"]
  by (simp add: specRingFragment_def buildEncodedCanonicalName_def isWhitespace_def)

section \<open>The pipeline on an absent boundary\<close>


text \<open>
  On an array the fetch returns the candidate it selects; on the envelope of axios it
  fails, whatever the envelope holds.
\<close>

lemma doOpenStreetMapRequest_array:
  assumes "get (''https://nominatim.openstreetmap.org/search.php?q=''
                 @ buildEncodedCanonicalName (canonical_name location)
                 @ ''&polygon_geojson=1&format=json'') = Some (ResponseArray responses)"
  shows "doOpenStreetMapRequest get location =
           Inr (if target_type location = Some Postal_Code
                then firstResponse (filter isPointResponse responses)
                else firstResponse responses)"
  using assms
  by (simp add: doOpenStreetMapRequest_def filterPoints_def destructureFirst_def Let_def)


lemma doOpenStreetMapRequest_returns:
  assumes "doOpenStreetMapRequest get location = Inr response"
  shows "\<exists>responses.
           get (''https://nominatim.openstreetmap.org/search.php?q=''
                 @ buildEncodedCanonicalName (canonical_name location)
                 @ ''&polygon_geojson=1&format=json'') = Some (ResponseArray responses)"
  using assms
  by (auto simp: doOpenStreetMapRequest_def filterPoints_def destructureFirst_def Let_def
      split: option.splits resolved.splits if_splits sum.splits)




section \<open>The number of points kept\<close>

text \<open>
  In exact arithmetic every point taken after the first uses up more than
  \<open>totalDistance / f\<close> of the ring, and what the taken points use up adds up to no more
  than \<open>totalDistance\<close>: fewer than \<open>f\<close> points are taken after the first.
\<close>

lemma roundedSum_exact: "roundedSum exact t ds = t + sum_list ds"
  by (induction ds arbitrary: t) (simp_all add: exact_def)

lemma keepLoop_budget:
  assumes "\<forall>c \<in> set cs. 0 \<le> distance c" "0 \<le> acc" "f \<noteq> 0"
  shows "real (length (keepLoop exact t f acc cs)) * (t / real f)
           \<le> acc + sum_list (map distance cs)
       \<and> (keepLoop exact t f acc cs \<noteq> [] \<longrightarrow>
            real (length (keepLoop exact t f acc cs)) * (t / real f)
              < acc + sum_list (map distance cs))"
  using assms
proof (induction cs arbitrary: acc)
  case Nil
  then show ?case by simp
next
  case (Cons c cs)
  have d: "0 \<le> distance c" using Cons.prems by simp
  have rest: "\<forall>c \<in> set cs. 0 \<le> distance c" using Cons.prems by simp
  show ?case
  proof (cases "exceedsInterval exact (exact (acc + distance c)) t f")
    case True
    have ih: "real (length (keepLoop exact t f 0 cs)) * (t / real f)
                \<le> 0 + sum_list (map distance cs)"
      using Cons.IH[of 0] rest Cons.prems(3) by simp
    have gt: "t / real f < acc + distance c"
      using True by (simp add: exceedsInterval_def exact_def)
    have "real (length (keepLoop exact t f acc (c # cs))) * (t / real f)
            = t / real f + real (length (keepLoop exact t f 0 cs)) * (t / real f)"
      using True by (simp add: algebra_simps)
    also have "\<dots> < (acc + distance c) + sum_list (map distance cs)"
      using ih gt by linarith
    finally show ?thesis by simp
  next
    case False
    have e: "exact (acc + distance c) = acc + distance c" by (simp add: exact_def)
    have keep: "keepLoop exact t f acc (c # cs) = keepLoop exact t f (acc + distance c) cs"
      using False by (simp add: e)
    have "0 \<le> acc + distance c" using d Cons.prems(2) by simp
    from Cons.IH[OF rest this Cons.prems(3)] show ?thesis
      unfolding keep by (simp add: add.assoc)
  qed
qed

lemma keepLoop_length:
  assumes "\<forall>c \<in> set cs. 0 \<le> distance c" "0 < f"
  shows "length (keepLoop exact (sum_list (map distance cs)) f 0 cs) < f"
proof (cases "keepLoop exact (sum_list (map distance cs)) f 0 cs = []")
  case True
  then show ?thesis using assms by simp
next
  case False
  define t where "t = sum_list (map distance cs)"
  define k where "k = length (keepLoop exact t f 0 cs)"
  have t0: "0 \<le> t" unfolding t_def using assms(1) by (intro sum_list_nonneg) auto
  have "real k * (t / real f) < t"
    using keepLoop_budget[of cs 0 f t] assms False unfolding t_def k_def by simp
  then have lt: "real k * t < t * real f"
    using assms(2) by (simp add: field_simps)
  have "k < f"
  proof (rule ccontr)
    assume "\<not> k < f"
    then have "real f \<le> real k" by simp
    then have "t * real f \<le> real k * t" using t0 by (simp add: mult.commute mult_left_mono)
    with lt show False by simp
  qed
  then show ?thesis unfolding k_def t_def .
qed

text \<open>The bound for one ring, in exact arithmetic.\<close>

lemma condensePolygon_length_exact:
  assumes "condensePolygon exact c m i r = Inr out" "0 < frequency c m i"
  shows "length out \<le> frequency c m i"
proof -
  from assms(1) obtain p ps where r: "r = Some (p # ps)"
    using condensePolygon_Inr_iff[of exact c m i r] by (metis list.exhaust)
  have "\<forall>x \<in> set (withDistances exact p ps). 0 \<le> distance x"
    using withDistances_nonneg[OF signPreserving_exact] by blast
  moreover have e: "exact 0 = 0" by (simp add: exact_def)
  ultimately show ?thesis
    using keepLoop_length[OF _ assms(2), of "withDistances exact p ps"] assms(1)
    unfolding r condensePolygon_Cons roundedSum_exact e by auto
qed

text \<open>The bound for every ring of a result, in exact arithmetic and with the default constants.\<close>

lemma condenseCoordinates_length_exact:
  assumes "condenseCoordinates exact default_constants g = Inr outs" "k < length outs"
  shows "length (outs ! k) \<le> (if isMultiPolygon g \<and> k > 1 then 10 else 200)"
proof (cases "\<exists>xs. g = Point xs")
  case True
  then show ?thesis using assms by (auto simp: condenseCoordinates_def)
next
  case False
  then obtain raw where raw: "rawCoordinates default_constants g = Inr raw"
    and m: "mapPolygons exact default_constants (isMultiPolygon g) 0 raw = Inr outs"
    using assms(1) by (cases g) (auto simp: condenseCoordinates_def split: sum.splits)
  from mapPolygons_nth[OF m] assms(2)
  have "condensePolygon exact default_constants (isMultiPolygon g) k (raw ! k) = Inr (outs ! k)"
    by simp
  moreover have "0 < frequency default_constants (isMultiPolygon g) k"
    by (simp add: frequency_def default_constants_def)
  ultimately have "length (outs ! k) \<le> frequency default_constants (isMultiPolygon g) k"
    by (rule condensePolygon_length_exact)
  then show ?thesis
    by (auto simp: frequency_def default_constants_def split: if_splits)
qed

text \<open>
  In doubles the sum of the first loop is rounded at every step, and ten times the
  double nearest to \<open>sqrt 10\<close> add up to a total whose tenth lies below that double.
\<close>

lemma binary64_sqrt_10: "binary64 (sqrt 10) = double 7120816245988179 1"
proof -
  have lo: "(7120816245988179 - 1 / 2) / 2 ^ 51 < sqrt 10"
    by (rule real_less_rsqrt) (simp add: power2_eq_square)
  have hi: "sqrt 10 < (7120816245988179 + 1 / 2) / 2 ^ 51"
    by (rule real_less_lsqrt) (simp_all add: power2_eq_square)
  have "2 powi 1 \<le> \<bar>sqrt 10\<bar>" using lo by simp
  moreover have "\<bar>sqrt 10\<bar> < 2 powi (1 + 1)" using hi by simp
  moreover have "\<bar>sqrt 10 / 2 powi (1 - 52) - of_int 7120816245988179\<bar> < 1 / 2"
  proof -
    define y where "y = sqrt 10 * 2 ^ 51"
    have "7120816245988179 - 1 / 2 < y" "y < 7120816245988179 + 1 / 2"
      using lo hi unfolding y_def by (simp_all add: field_simps)
    then have "\<bar>y - 7120816245988179\<bar> < 1 / 2" by linarith
    then show ?thesis unfolding y_def by (simp add: power_int_minus)
  qed
  ultimately show ?thesis by (rule binary64_eq)
qed

lemma sum_step_1: "binary64 (0 + double 7120816245988179 1) = double 7120816245988179 1"
  using binary64_eq[of 1 "0 + double 7120816245988179 1" 7120816245988179] by (simp add: double_def power_int_minus)

lemma sum_step_2: "binary64 (double 7120816245988179 1 + double 7120816245988179 1) = double 7120816245988179 2"
  using binary64_eq[of 2 "double 7120816245988179 1 + double 7120816245988179 1" 7120816245988179] by (simp add: double_def power_int_minus)

lemma sum_step_3: "binary64 (double 7120816245988179 2 + double 7120816245988179 1) = double 5340612184491134 3"
  using binary64_eq[of 3 "double 7120816245988179 2 + double 7120816245988179 1" 5340612184491134] by (simp add: double_def power_int_minus)

lemma sum_step_4: "binary64 (double 5340612184491134 3 + double 7120816245988179 1) = double 7120816245988179 3"
  using binary64_eq[of 3 "double 5340612184491134 3 + double 7120816245988179 1" 7120816245988179] by (simp add: double_def power_int_minus)

lemma sum_step_5: "binary64 (double 7120816245988179 3 + double 7120816245988179 1) = double 8901020307485224 3"
  using binary64_eq[of 3 "double 7120816245988179 3 + double 7120816245988179 1" 8901020307485224] by (simp add: double_def power_int_minus)

lemma sum_step_6: "binary64 (double 8901020307485224 3 + double 7120816245988179 1) = double 5340612184491134 4"
  using binary64_eq[of 4 "double 8901020307485224 3 + double 7120816245988179 1" 5340612184491134] by (simp add: double_def power_int_minus)

lemma sum_step_7: "binary64 (double 5340612184491134 4 + double 7120816245988179 1) = double 6230714215239656 4"
  using binary64_eq[of 4 "double 5340612184491134 4 + double 7120816245988179 1" 6230714215239656] by (simp add: double_def power_int_minus)

lemma sum_step_8: "binary64 (double 6230714215239656 4 + double 7120816245988179 1) = double 7120816245988178 4"
  using binary64_eq[of 4 "double 6230714215239656 4 + double 7120816245988179 1" 7120816245988178] by (simp add: double_def power_int_minus)

lemma sum_step_9: "binary64 (double 7120816245988178 4 + double 7120816245988179 1) = double 8010918276736700 4"
  using binary64_eq[of 4 "double 7120816245988178 4 + double 7120816245988179 1" 8010918276736700] by (simp add: double_def power_int_minus)

lemma sum_step_10: "binary64 (double 8010918276736700 4 + double 7120816245988179 1) = double 8901020307485222 4"
  using binary64_eq[of 4 "double 8010918276736700 4 + double 7120816245988179 1" 8901020307485222] by (simp add: double_def power_int_minus)

lemmas sum_steps =
  sum_step_1 sum_step_2 sum_step_3 sum_step_4 sum_step_5 sum_step_6 sum_step_7 sum_step_8 sum_step_9 sum_step_10

lemma interval_step: "binary64 (double 8901020307485222 4 / 10) = double 7120816245988178 1"
  using binary64_eq[of 1 "double 8901020307485222 4 / 10" 7120816245988178]
  by (simp add: double_def power_int_minus)

lemma interval_less: "double 7120816245988178 1 < double 7120816245988179 1"
  by (simp add: double_def power_int_minus)

lemma line_distances:
  "withDistances binary64 (0, 0) (tl lineRing) =
     [\<lparr>longitude = 1, latitude = 3, distance = double 7120816245988179 1\<rparr>,
      \<lparr>longitude = 2, latitude = 6, distance = double 7120816245988179 1\<rparr>,
      \<lparr>longitude = 3, latitude = 9, distance = double 7120816245988179 1\<rparr>,
      \<lparr>longitude = 4, latitude = 12, distance = double 7120816245988179 1\<rparr>,
      \<lparr>longitude = 5, latitude = 15, distance = double 7120816245988179 1\<rparr>,
      \<lparr>longitude = 6, latitude = 18, distance = double 7120816245988179 1\<rparr>,
      \<lparr>longitude = 7, latitude = 21, distance = double 7120816245988179 1\<rparr>,
      \<lparr>longitude = 8, latitude = 24, distance = double 7120816245988179 1\<rparr>,
      \<lparr>longitude = 9, latitude = 27, distance = double 7120816245988179 1\<rparr>,
      \<lparr>longitude = 10, latitude = 30, distance = double 7120816245988179 1\<rparr>]"
  by (simp add: lineRing_def calculateCoordinateSeparation_def binary64_integers binary64_sqrt_10)

lemma line_total:
  "roundedSum binary64 0
     [double 7120816245988179 1, double 7120816245988179 1, double 7120816245988179 1,
      double 7120816245988179 1, double 7120816245988179 1, double 7120816245988179 1,
      double 7120816245988179 1, double 7120816245988179 1, double 7120816245988179 1,
      double 7120816245988179 1] = double 8901020307485222 4"
  by (simp only: roundedSum.simps sum_steps)

lemma binary64_sqrt_10_fixed:
  "binary64 (double 7120816245988179 1) = double 7120816245988179 1"
  using sum_step_1 by simp

lemma line_keep:
  "exceedsInterval binary64 (binary64 (0 + double 7120816245988179 1))
     (double 8901020307485222 4) 10"
  by (simp add: exceedsInterval_def binary64_sqrt_10_fixed interval_step interval_less)

lemma line_kept:
  "keepLoop binary64 (double 8901020307485222 4) 10 0 (withDistances binary64 (0, 0) (tl lineRing)) =
     withDistances binary64 (0, 0) (tl lineRing)"
  unfolding line_distances
  by (simp add: exceedsInterval_def binary64_sqrt_10_fixed interval_step interval_less)

lemma line_condensed:
  "condensePolygon binary64 default_constants True 2 (Some lineRing) =
     Inr (\<lparr>longitude = 0, latitude = 0, distance = 0\<rparr> # withDistances binary64 (0, 0) (tl lineRing))"
proof -
  have ring: "lineRing = (0, 0) # tl lineRing" by (simp add: lineRing_def)
  have f: "frequency default_constants True 2 = 10"
    by (simp add: frequency_def)
  have t: "roundedSum binary64 0 (map distance (withDistances binary64 (0, 0) (tl lineRing))) =
             double 8901020307485222 4"
    unfolding line_distances using line_total by simp
  have "condensePolygon binary64 default_constants True 2 (Some ((0, 0) # tl lineRing)) =
     Inr (\<lparr>longitude = 0, latitude = 0, distance = 0\<rparr> # withDistances binary64 (0, 0) (tl lineRing))"
    unfolding condensePolygon_Cons f t binary64_0 line_kept by simp
  then show ?thesis using ring by simp
qed

lemma flat_condensed:
  "condensePolygon binary64 default_constants True i (Some flatRing) =
     Inr [\<lparr>longitude = 0, latitude = 0, distance = 0\<rparr>]"
  by (simp add: flatRing_def condensePolygon_def sep_same binary64_0 exceedsInterval_def)

lemma islands_kept: "keptPolygons default_constants islands = Inr islands"
  by (simp add: keptPolygons_def sortPolygons_def islands_def default_constants_def
      flatRing_def lineRing_def)

lemma islands_condensed:
  "condenseCoordinates binary64 default_constants (MultiPolygon islands) =
     Inr [[\<lparr>longitude = 0, latitude = 0, distance = 0\<rparr>],
          [\<lparr>longitude = 0, latitude = 0, distance = 0\<rparr>],
          \<lparr>longitude = 0, latitude = 0, distance = 0\<rparr>
            # withDistances binary64 (0, 0) (tl lineRing)]"
  unfolding condenseCoordinates_MultiPolygon[OF islands_kept]
  by (simp add: islands_def flat_condensed line_condensed[unfolded numeral_2_eq_2])

text \<open>
  The same at the default frequency: the 200 segments of \<open>longRing\<close> have the length of
  the double nearest to \<open>sqrt 5\<close>, and the total of the first loop, rounded at each of
  its 200 additions, is smaller than 200 times that double.
\<close>

lemma binary64_sqrt_5: "binary64 (sqrt 5) = double 5035177455121576 1"
proof -
  have lo: "(5035177455121576 - 1 / 2) / 2 ^ 51 < sqrt 5"
    by (rule real_less_rsqrt) (simp add: power2_eq_square)
  have hi: "sqrt 5 < (5035177455121576 + 1 / 2) / 2 ^ 51"
    by (rule real_less_lsqrt) (simp_all add: power2_eq_square)
  have "2 powi 1 \<le> \<bar>sqrt 5\<bar>" using lo by simp
  moreover have "\<bar>sqrt 5\<bar> < 2 powi (1 + 1)" using hi by simp
  moreover have "\<bar>sqrt 5 / 2 powi (1 - 52) - of_int 5035177455121576\<bar> < 1 / 2"
  proof -
    define y where "y = sqrt 5 * 2 ^ 51"
    have "5035177455121576 - 1 / 2 < y" "y < 5035177455121576 + 1 / 2"
      using lo hi unfolding y_def by (simp_all add: field_simps)
    then have "\<bar>y - 5035177455121576\<bar> < 1 / 2" by linarith
    then show ?thesis unfolding y_def by (simp add: power_int_minus)
  qed
  ultimately show ?thesis by (rule binary64_eq)
qed

lemma long_sum_1: "binary64 (0 + double 5035177455121576 1) = double 5035177455121576 1"
  by (rule binary64_eq) (simp_all add: double_def power_int_minus)

lemma long_sum_2: "binary64 (double 5035177455121576 1 + double 5035177455121576 1) = double 5035177455121576 2"
  by (rule binary64_eq) (simp_all add: double_def power_int_minus)

lemma long_sum_3: "binary64 (double 5035177455121576 2 + double 5035177455121576 1) = double 7552766182682364 2"
  by (rule binary64_eq) (simp_all add: double_def power_int_minus)

lemma long_sum_4: "binary64 (double 7552766182682364 2 + double 5035177455121576 1) = double 5035177455121576 3"
  by (rule binary64_eq) (simp_all add: double_def power_int_minus)

lemma long_sum_5: "binary64 (double 5035177455121576 3 + double 5035177455121576 1) = double 6293971818901970 3"
  by (rule binary64_eq) (simp_all add: double_def power_int_minus)

lemma long_sum_6: "binary64 (double 6293971818901970 3 + double 5035177455121576 1) = double 7552766182682364 3"
  by (rule binary64_eq) (simp_all add: double_def power_int_minus)

lemma long_sum_7: "binary64 (double 7552766182682364 3 + double 5035177455121576 1) = double 8811560546462758 3"
  by (rule binary64_eq) (simp_all add: double_def power_int_minus)

lemma long_sum_8: "binary64 (double 8811560546462758 3 + double 5035177455121576 1) = double 5035177455121576 4"
  by (rule binary64_eq) (simp_all add: double_def power_int_minus)

lemma long_sum_9: "binary64 (double 5035177455121576 4 + double 5035177455121576 1) = double 5664574637011773 4"
  by (rule binary64_eq) (simp_all add: double_def power_int_minus)

lemma long_sum_10: "binary64 (double 5664574637011773 4 + double 5035177455121576 1) = double 6293971818901970 4"
  by (rule binary64_eq) (simp_all add: double_def power_int_minus)

lemma long_sum_11: "binary64 (double 6293971818901970 4 + double 5035177455121576 1) = double 6923369000792167 4"
  by (rule binary64_eq) (simp_all add: double_def power_int_minus)

lemma long_sum_12: "binary64 (double 6923369000792167 4 + double 5035177455121576 1) = double 7552766182682364 4"
  by (rule binary64_eq) (simp_all add: double_def power_int_minus)

lemma long_sum_13: "binary64 (double 7552766182682364 4 + double 5035177455121576 1) = double 8182163364572561 4"
  by (rule binary64_eq) (simp_all add: double_def power_int_minus)

lemma long_sum_14: "binary64 (double 8182163364572561 4 + double 5035177455121576 1) = double 8811560546462758 4"
  by (rule binary64_eq) (simp_all add: double_def power_int_minus)

lemma long_sum_15: "binary64 (double 8811560546462758 4 + double 5035177455121576 1) = double 4720478864176478 5"
  by (rule binary64_tie) (simp_all add: double_def power_int_minus)

lemma long_sum_16: "binary64 (double 4720478864176478 5 + double 5035177455121576 1) = double 5035177455121576 5"
  by (rule binary64_tie) (simp_all add: double_def power_int_minus)

lemma long_sum_17: "binary64 (double 5035177455121576 5 + double 5035177455121576 1) = double 5349876046066674 5"
  by (rule binary64_tie) (simp_all add: double_def power_int_minus)

lemma long_sum_18: "binary64 (double 5349876046066674 5 + double 5035177455121576 1) = double 5664574637011772 5"
  by (rule binary64_tie) (simp_all add: double_def power_int_minus)

lemma long_sum_19: "binary64 (double 5664574637011772 5 + double 5035177455121576 1) = double 5979273227956870 5"
  by (rule binary64_tie) (simp_all add: double_def power_int_minus)

lemma long_sum_20: "binary64 (double 5979273227956870 5 + double 5035177455121576 1) = double 6293971818901968 5"
  by (rule binary64_tie) (simp_all add: double_def power_int_minus)

lemma long_sum_21: "binary64 (double 6293971818901968 5 + double 5035177455121576 1) = double 6608670409847066 5"
  by (rule binary64_tie) (simp_all add: double_def power_int_minus)

lemma long_sum_22: "binary64 (double 6608670409847066 5 + double 5035177455121576 1) = double 6923369000792164 5"
  by (rule binary64_tie) (simp_all add: double_def power_int_minus)

lemma long_sum_23: "binary64 (double 6923369000792164 5 + double 5035177455121576 1) = double 7238067591737262 5"
  by (rule binary64_tie) (simp_all add: double_def power_int_minus)

lemma long_sum_24: "binary64 (double 7238067591737262 5 + double 5035177455121576 1) = double 7552766182682360 5"
  by (rule binary64_tie) (simp_all add: double_def power_int_minus)

lemma long_sum_25: "binary64 (double 7552766182682360 5 + double 5035177455121576 1) = double 7867464773627458 5"
  by (rule binary64_tie) (simp_all add: double_def power_int_minus)

lemma long_sum_26: "binary64 (double 7867464773627458 5 + double 5035177455121576 1) = double 8182163364572556 5"
  by (rule binary64_tie) (simp_all add: double_def power_int_minus)

lemma long_sum_27: "binary64 (double 8182163364572556 5 + double 5035177455121576 1) = double 8496861955517654 5"
  by (rule binary64_tie) (simp_all add: double_def power_int_minus)

lemma long_sum_28: "binary64 (double 8496861955517654 5 + double 5035177455121576 1) = double 8811560546462752 5"
  by (rule binary64_tie) (simp_all add: double_def power_int_minus)

lemma long_sum_29: "binary64 (double 8811560546462752 5 + double 5035177455121576 1) = double 4563129568703925 6"
  by (rule binary64_eq) (simp_all add: double_def power_int_minus)

lemma long_sum_30: "binary64 (double 4563129568703925 6 + double 5035177455121576 1) = double 4720478864176474 6"
  by (rule binary64_eq) (simp_all add: double_def power_int_minus)

lemma long_sum_31: "binary64 (double 4720478864176474 6 + double 5035177455121576 1) = double 4877828159649023 6"
  by (rule binary64_eq) (simp_all add: double_def power_int_minus)

lemma long_sum_32: "binary64 (double 4877828159649023 6 + double 5035177455121576 1) = double 5035177455121572 6"
  by (rule binary64_eq) (simp_all add: double_def power_int_minus)

lemma long_sum_33: "binary64 (double 5035177455121572 6 + double 5035177455121576 1) = double 5192526750594121 6"
  by (rule binary64_eq) (simp_all add: double_def power_int_minus)

lemma long_sum_34: "binary64 (double 5192526750594121 6 + double 5035177455121576 1) = double 5349876046066670 6"
  by (rule binary64_eq) (simp_all add: double_def power_int_minus)

lemma long_sum_35: "binary64 (double 5349876046066670 6 + double 5035177455121576 1) = double 5507225341539219 6"
  by (rule binary64_eq) (simp_all add: double_def power_int_minus)

lemma long_sum_36: "binary64 (double 5507225341539219 6 + double 5035177455121576 1) = double 5664574637011768 6"
  by (rule binary64_eq) (simp_all add: double_def power_int_minus)

lemma long_sum_37: "binary64 (double 5664574637011768 6 + double 5035177455121576 1) = double 5821923932484317 6"
  by (rule binary64_eq) (simp_all add: double_def power_int_minus)

lemma long_sum_38: "binary64 (double 5821923932484317 6 + double 5035177455121576 1) = double 5979273227956866 6"
  by (rule binary64_eq) (simp_all add: double_def power_int_minus)

lemma long_sum_39: "binary64 (double 5979273227956866 6 + double 5035177455121576 1) = double 6136622523429415 6"
  by (rule binary64_eq) (simp_all add: double_def power_int_minus)

lemma long_sum_40: "binary64 (double 6136622523429415 6 + double 5035177455121576 1) = double 6293971818901964 6"
  by (rule binary64_eq) (simp_all add: double_def power_int_minus)

lemma long_sum_41: "binary64 (double 6293971818901964 6 + double 5035177455121576 1) = double 6451321114374513 6"
  by (rule binary64_eq) (simp_all add: double_def power_int_minus)

lemma long_sum_42: "binary64 (double 6451321114374513 6 + double 5035177455121576 1) = double 6608670409847062 6"
  by (rule binary64_eq) (simp_all add: double_def power_int_minus)

lemma long_sum_43: "binary64 (double 6608670409847062 6 + double 5035177455121576 1) = double 6766019705319611 6"
  by (rule binary64_eq) (simp_all add: double_def power_int_minus)

lemma long_sum_44: "binary64 (double 6766019705319611 6 + double 5035177455121576 1) = double 6923369000792160 6"
  by (rule binary64_eq) (simp_all add: double_def power_int_minus)

lemma long_sum_45: "binary64 (double 6923369000792160 6 + double 5035177455121576 1) = double 7080718296264709 6"
  by (rule binary64_eq) (simp_all add: double_def power_int_minus)

lemma long_sum_46: "binary64 (double 7080718296264709 6 + double 5035177455121576 1) = double 7238067591737258 6"
  by (rule binary64_eq) (simp_all add: double_def power_int_minus)

lemma long_sum_47: "binary64 (double 7238067591737258 6 + double 5035177455121576 1) = double 7395416887209807 6"
  by (rule binary64_eq) (simp_all add: double_def power_int_minus)

lemma long_sum_48: "binary64 (double 7395416887209807 6 + double 5035177455121576 1) = double 7552766182682356 6"
  by (rule binary64_eq) (simp_all add: double_def power_int_minus)

lemma long_sum_49: "binary64 (double 7552766182682356 6 + double 5035177455121576 1) = double 7710115478154905 6"
  by (rule binary64_eq) (simp_all add: double_def power_int_minus)

lemma long_sum_50: "binary64 (double 7710115478154905 6 + double 5035177455121576 1) = double 7867464773627454 6"
  by (rule binary64_eq) (simp_all add: double_def power_int_minus)

lemma long_sum_51: "binary64 (double 7867464773627454 6 + double 5035177455121576 1) = double 8024814069100003 6"
  by (rule binary64_eq) (simp_all add: double_def power_int_minus)

lemma long_sum_52: "binary64 (double 8024814069100003 6 + double 5035177455121576 1) = double 8182163364572552 6"
  by (rule binary64_eq) (simp_all add: double_def power_int_minus)

lemma long_sum_53: "binary64 (double 8182163364572552 6 + double 5035177455121576 1) = double 8339512660045101 6"
  by (rule binary64_eq) (simp_all add: double_def power_int_minus)

lemma long_sum_54: "binary64 (double 8339512660045101 6 + double 5035177455121576 1) = double 8496861955517650 6"
  by (rule binary64_eq) (simp_all add: double_def power_int_minus)

lemma long_sum_55: "binary64 (double 8496861955517650 6 + double 5035177455121576 1) = double 8654211250990199 6"
  by (rule binary64_eq) (simp_all add: double_def power_int_minus)

lemma long_sum_56: "binary64 (double 8654211250990199 6 + double 5035177455121576 1) = double 8811560546462748 6"
  by (rule binary64_eq) (simp_all add: double_def power_int_minus)

lemma long_sum_57: "binary64 (double 8811560546462748 6 + double 5035177455121576 1) = double 8968909841935297 6"
  by (rule binary64_eq) (simp_all add: double_def power_int_minus)

lemma long_sum_58: "binary64 (double 8968909841935297 6 + double 5035177455121576 1) = double 4563129568703923 7"
  by (rule binary64_eq) (simp_all add: double_def power_int_minus)

lemma long_sum_59: "binary64 (double 4563129568703923 7 + double 5035177455121576 1) = double 4641804216440198 7"
  by (rule binary64_eq) (simp_all add: double_def power_int_minus)

lemma long_sum_60: "binary64 (double 4641804216440198 7 + double 5035177455121576 1) = double 4720478864176473 7"
  by (rule binary64_eq) (simp_all add: double_def power_int_minus)

lemma long_sum_61: "binary64 (double 4720478864176473 7 + double 5035177455121576 1) = double 4799153511912748 7"
  by (rule binary64_eq) (simp_all add: double_def power_int_minus)

lemma long_sum_62: "binary64 (double 4799153511912748 7 + double 5035177455121576 1) = double 4877828159649023 7"
  by (rule binary64_eq) (simp_all add: double_def power_int_minus)

lemma long_sum_63: "binary64 (double 4877828159649023 7 + double 5035177455121576 1) = double 4956502807385298 7"
  by (rule binary64_eq) (simp_all add: double_def power_int_minus)

lemma long_sum_64: "binary64 (double 4956502807385298 7 + double 5035177455121576 1) = double 5035177455121573 7"
  by (rule binary64_eq) (simp_all add: double_def power_int_minus)

lemma long_sum_65: "binary64 (double 5035177455121573 7 + double 5035177455121576 1) = double 5113852102857848 7"
  by (rule binary64_eq) (simp_all add: double_def power_int_minus)

lemma long_sum_66: "binary64 (double 5113852102857848 7 + double 5035177455121576 1) = double 5192526750594123 7"
  by (rule binary64_eq) (simp_all add: double_def power_int_minus)

lemma long_sum_67: "binary64 (double 5192526750594123 7 + double 5035177455121576 1) = double 5271201398330398 7"
  by (rule binary64_eq) (simp_all add: double_def power_int_minus)

lemma long_sum_68: "binary64 (double 5271201398330398 7 + double 5035177455121576 1) = double 5349876046066673 7"
  by (rule binary64_eq) (simp_all add: double_def power_int_minus)

lemma long_sum_69: "binary64 (double 5349876046066673 7 + double 5035177455121576 1) = double 5428550693802948 7"
  by (rule binary64_eq) (simp_all add: double_def power_int_minus)

lemma long_sum_70: "binary64 (double 5428550693802948 7 + double 5035177455121576 1) = double 5507225341539223 7"
  by (rule binary64_eq) (simp_all add: double_def power_int_minus)

lemma long_sum_71: "binary64 (double 5507225341539223 7 + double 5035177455121576 1) = double 5585899989275498 7"
  by (rule binary64_eq) (simp_all add: double_def power_int_minus)

lemma long_sum_72: "binary64 (double 5585899989275498 7 + double 5035177455121576 1) = double 5664574637011773 7"
  by (rule binary64_eq) (simp_all add: double_def power_int_minus)

lemma long_sum_73: "binary64 (double 5664574637011773 7 + double 5035177455121576 1) = double 5743249284748048 7"
  by (rule binary64_eq) (simp_all add: double_def power_int_minus)

lemma long_sum_74: "binary64 (double 5743249284748048 7 + double 5035177455121576 1) = double 5821923932484323 7"
  by (rule binary64_eq) (simp_all add: double_def power_int_minus)

lemma long_sum_75: "binary64 (double 5821923932484323 7 + double 5035177455121576 1) = double 5900598580220598 7"
  by (rule binary64_eq) (simp_all add: double_def power_int_minus)

lemma long_sum_76: "binary64 (double 5900598580220598 7 + double 5035177455121576 1) = double 5979273227956873 7"
  by (rule binary64_eq) (simp_all add: double_def power_int_minus)

lemma long_sum_77: "binary64 (double 5979273227956873 7 + double 5035177455121576 1) = double 6057947875693148 7"
  by (rule binary64_eq) (simp_all add: double_def power_int_minus)

lemma long_sum_78: "binary64 (double 6057947875693148 7 + double 5035177455121576 1) = double 6136622523429423 7"
  by (rule binary64_eq) (simp_all add: double_def power_int_minus)

lemma long_sum_79: "binary64 (double 6136622523429423 7 + double 5035177455121576 1) = double 6215297171165698 7"
  by (rule binary64_eq) (simp_all add: double_def power_int_minus)

lemma long_sum_80: "binary64 (double 6215297171165698 7 + double 5035177455121576 1) = double 6293971818901973 7"
  by (rule binary64_eq) (simp_all add: double_def power_int_minus)

lemma long_sum_81: "binary64 (double 6293971818901973 7 + double 5035177455121576 1) = double 6372646466638248 7"
  by (rule binary64_eq) (simp_all add: double_def power_int_minus)

lemma long_sum_82: "binary64 (double 6372646466638248 7 + double 5035177455121576 1) = double 6451321114374523 7"
  by (rule binary64_eq) (simp_all add: double_def power_int_minus)

lemma long_sum_83: "binary64 (double 6451321114374523 7 + double 5035177455121576 1) = double 6529995762110798 7"
  by (rule binary64_eq) (simp_all add: double_def power_int_minus)

lemma long_sum_84: "binary64 (double 6529995762110798 7 + double 5035177455121576 1) = double 6608670409847073 7"
  by (rule binary64_eq) (simp_all add: double_def power_int_minus)

lemma long_sum_85: "binary64 (double 6608670409847073 7 + double 5035177455121576 1) = double 6687345057583348 7"
  by (rule binary64_eq) (simp_all add: double_def power_int_minus)

lemma long_sum_86: "binary64 (double 6687345057583348 7 + double 5035177455121576 1) = double 6766019705319623 7"
  by (rule binary64_eq) (simp_all add: double_def power_int_minus)

lemma long_sum_87: "binary64 (double 6766019705319623 7 + double 5035177455121576 1) = double 6844694353055898 7"
  by (rule binary64_eq) (simp_all add: double_def power_int_minus)

lemma long_sum_88: "binary64 (double 6844694353055898 7 + double 5035177455121576 1) = double 6923369000792173 7"
  by (rule binary64_eq) (simp_all add: double_def power_int_minus)

lemma long_sum_89: "binary64 (double 6923369000792173 7 + double 5035177455121576 1) = double 7002043648528448 7"
  by (rule binary64_eq) (simp_all add: double_def power_int_minus)

lemma long_sum_90: "binary64 (double 7002043648528448 7 + double 5035177455121576 1) = double 7080718296264723 7"
  by (rule binary64_eq) (simp_all add: double_def power_int_minus)

lemma long_sum_91: "binary64 (double 7080718296264723 7 + double 5035177455121576 1) = double 7159392944000998 7"
  by (rule binary64_eq) (simp_all add: double_def power_int_minus)

lemma long_sum_92: "binary64 (double 7159392944000998 7 + double 5035177455121576 1) = double 7238067591737273 7"
  by (rule binary64_eq) (simp_all add: double_def power_int_minus)

lemma long_sum_93: "binary64 (double 7238067591737273 7 + double 5035177455121576 1) = double 7316742239473548 7"
  by (rule binary64_eq) (simp_all add: double_def power_int_minus)

lemma long_sum_94: "binary64 (double 7316742239473548 7 + double 5035177455121576 1) = double 7395416887209823 7"
  by (rule binary64_eq) (simp_all add: double_def power_int_minus)

lemma long_sum_95: "binary64 (double 7395416887209823 7 + double 5035177455121576 1) = double 7474091534946098 7"
  by (rule binary64_eq) (simp_all add: double_def power_int_minus)

lemma long_sum_96: "binary64 (double 7474091534946098 7 + double 5035177455121576 1) = double 7552766182682373 7"
  by (rule binary64_eq) (simp_all add: double_def power_int_minus)

lemma long_sum_97: "binary64 (double 7552766182682373 7 + double 5035177455121576 1) = double 7631440830418648 7"
  by (rule binary64_eq) (simp_all add: double_def power_int_minus)

lemma long_sum_98: "binary64 (double 7631440830418648 7 + double 5035177455121576 1) = double 7710115478154923 7"
  by (rule binary64_eq) (simp_all add: double_def power_int_minus)

lemma long_sum_99: "binary64 (double 7710115478154923 7 + double 5035177455121576 1) = double 7788790125891198 7"
  by (rule binary64_eq) (simp_all add: double_def power_int_minus)

lemma long_sum_100: "binary64 (double 7788790125891198 7 + double 5035177455121576 1) = double 7867464773627473 7"
  by (rule binary64_eq) (simp_all add: double_def power_int_minus)

lemma long_sum_101: "binary64 (double 7867464773627473 7 + double 5035177455121576 1) = double 7946139421363748 7"
  by (rule binary64_eq) (simp_all add: double_def power_int_minus)

lemma long_sum_102: "binary64 (double 7946139421363748 7 + double 5035177455121576 1) = double 8024814069100023 7"
  by (rule binary64_eq) (simp_all add: double_def power_int_minus)

lemma long_sum_103: "binary64 (double 8024814069100023 7 + double 5035177455121576 1) = double 8103488716836298 7"
  by (rule binary64_eq) (simp_all add: double_def power_int_minus)

lemma long_sum_104: "binary64 (double 8103488716836298 7 + double 5035177455121576 1) = double 8182163364572573 7"
  by (rule binary64_eq) (simp_all add: double_def power_int_minus)

lemma long_sum_105: "binary64 (double 8182163364572573 7 + double 5035177455121576 1) = double 8260838012308848 7"
  by (rule binary64_eq) (simp_all add: double_def power_int_minus)

lemma long_sum_106: "binary64 (double 8260838012308848 7 + double 5035177455121576 1) = double 8339512660045123 7"
  by (rule binary64_eq) (simp_all add: double_def power_int_minus)

lemma long_sum_107: "binary64 (double 8339512660045123 7 + double 5035177455121576 1) = double 8418187307781398 7"
  by (rule binary64_eq) (simp_all add: double_def power_int_minus)

lemma long_sum_108: "binary64 (double 8418187307781398 7 + double 5035177455121576 1) = double 8496861955517673 7"
  by (rule binary64_eq) (simp_all add: double_def power_int_minus)

lemma long_sum_109: "binary64 (double 8496861955517673 7 + double 5035177455121576 1) = double 8575536603253948 7"
  by (rule binary64_eq) (simp_all add: double_def power_int_minus)

lemma long_sum_110: "binary64 (double 8575536603253948 7 + double 5035177455121576 1) = double 8654211250990223 7"
  by (rule binary64_eq) (simp_all add: double_def power_int_minus)

lemma long_sum_111: "binary64 (double 8654211250990223 7 + double 5035177455121576 1) = double 8732885898726498 7"
  by (rule binary64_eq) (simp_all add: double_def power_int_minus)

lemma long_sum_112: "binary64 (double 8732885898726498 7 + double 5035177455121576 1) = double 8811560546462773 7"
  by (rule binary64_eq) (simp_all add: double_def power_int_minus)

lemma long_sum_113: "binary64 (double 8811560546462773 7 + double 5035177455121576 1) = double 8890235194199048 7"
  by (rule binary64_eq) (simp_all add: double_def power_int_minus)

lemma long_sum_114: "binary64 (double 8890235194199048 7 + double 5035177455121576 1) = double 8968909841935323 7"
  by (rule binary64_eq) (simp_all add: double_def power_int_minus)

lemma long_sum_115: "binary64 (double 8968909841935323 7 + double 5035177455121576 1) = double 4523792244835799 8"
  by (rule binary64_eq) (simp_all add: double_def power_int_minus)

lemma long_sum_116: "binary64 (double 4523792244835799 8 + double 5035177455121576 1) = double 4563129568703936 8"
  by (rule binary64_eq) (simp_all add: double_def power_int_minus)

lemma long_sum_117: "binary64 (double 4563129568703936 8 + double 5035177455121576 1) = double 4602466892572073 8"
  by (rule binary64_eq) (simp_all add: double_def power_int_minus)

lemma long_sum_118: "binary64 (double 4602466892572073 8 + double 5035177455121576 1) = double 4641804216440210 8"
  by (rule binary64_eq) (simp_all add: double_def power_int_minus)

lemma long_sum_119: "binary64 (double 4641804216440210 8 + double 5035177455121576 1) = double 4681141540308347 8"
  by (rule binary64_eq) (simp_all add: double_def power_int_minus)

lemma long_sum_120: "binary64 (double 4681141540308347 8 + double 5035177455121576 1) = double 4720478864176484 8"
  by (rule binary64_eq) (simp_all add: double_def power_int_minus)

lemma long_sum_121: "binary64 (double 4720478864176484 8 + double 5035177455121576 1) = double 4759816188044621 8"
  by (rule binary64_eq) (simp_all add: double_def power_int_minus)

lemma long_sum_122: "binary64 (double 4759816188044621 8 + double 5035177455121576 1) = double 4799153511912758 8"
  by (rule binary64_eq) (simp_all add: double_def power_int_minus)

lemma long_sum_123: "binary64 (double 4799153511912758 8 + double 5035177455121576 1) = double 4838490835780895 8"
  by (rule binary64_eq) (simp_all add: double_def power_int_minus)

lemma long_sum_124: "binary64 (double 4838490835780895 8 + double 5035177455121576 1) = double 4877828159649032 8"
  by (rule binary64_eq) (simp_all add: double_def power_int_minus)

lemma long_sum_125: "binary64 (double 4877828159649032 8 + double 5035177455121576 1) = double 4917165483517169 8"
  by (rule binary64_eq) (simp_all add: double_def power_int_minus)

lemma long_sum_126: "binary64 (double 4917165483517169 8 + double 5035177455121576 1) = double 4956502807385306 8"
  by (rule binary64_eq) (simp_all add: double_def power_int_minus)

lemma long_sum_127: "binary64 (double 4956502807385306 8 + double 5035177455121576 1) = double 4995840131253443 8"
  by (rule binary64_eq) (simp_all add: double_def power_int_minus)

lemma long_sum_128: "binary64 (double 4995840131253443 8 + double 5035177455121576 1) = double 5035177455121580 8"
  by (rule binary64_eq) (simp_all add: double_def power_int_minus)

lemma long_sum_129: "binary64 (double 5035177455121580 8 + double 5035177455121576 1) = double 5074514778989717 8"
  by (rule binary64_eq) (simp_all add: double_def power_int_minus)

lemma long_sum_130: "binary64 (double 5074514778989717 8 + double 5035177455121576 1) = double 5113852102857854 8"
  by (rule binary64_eq) (simp_all add: double_def power_int_minus)

lemma long_sum_131: "binary64 (double 5113852102857854 8 + double 5035177455121576 1) = double 5153189426725991 8"
  by (rule binary64_eq) (simp_all add: double_def power_int_minus)

lemma long_sum_132: "binary64 (double 5153189426725991 8 + double 5035177455121576 1) = double 5192526750594128 8"
  by (rule binary64_eq) (simp_all add: double_def power_int_minus)

lemma long_sum_133: "binary64 (double 5192526750594128 8 + double 5035177455121576 1) = double 5231864074462265 8"
  by (rule binary64_eq) (simp_all add: double_def power_int_minus)

lemma long_sum_134: "binary64 (double 5231864074462265 8 + double 5035177455121576 1) = double 5271201398330402 8"
  by (rule binary64_eq) (simp_all add: double_def power_int_minus)

lemma long_sum_135: "binary64 (double 5271201398330402 8 + double 5035177455121576 1) = double 5310538722198539 8"
  by (rule binary64_eq) (simp_all add: double_def power_int_minus)

lemma long_sum_136: "binary64 (double 5310538722198539 8 + double 5035177455121576 1) = double 5349876046066676 8"
  by (rule binary64_eq) (simp_all add: double_def power_int_minus)

lemma long_sum_137: "binary64 (double 5349876046066676 8 + double 5035177455121576 1) = double 5389213369934813 8"
  by (rule binary64_eq) (simp_all add: double_def power_int_minus)

lemma long_sum_138: "binary64 (double 5389213369934813 8 + double 5035177455121576 1) = double 5428550693802950 8"
  by (rule binary64_eq) (simp_all add: double_def power_int_minus)

lemma long_sum_139: "binary64 (double 5428550693802950 8 + double 5035177455121576 1) = double 5467888017671087 8"
  by (rule binary64_eq) (simp_all add: double_def power_int_minus)

lemma long_sum_140: "binary64 (double 5467888017671087 8 + double 5035177455121576 1) = double 5507225341539224 8"
  by (rule binary64_eq) (simp_all add: double_def power_int_minus)

lemma long_sum_141: "binary64 (double 5507225341539224 8 + double 5035177455121576 1) = double 5546562665407361 8"
  by (rule binary64_eq) (simp_all add: double_def power_int_minus)

lemma long_sum_142: "binary64 (double 5546562665407361 8 + double 5035177455121576 1) = double 5585899989275498 8"
  by (rule binary64_eq) (simp_all add: double_def power_int_minus)

lemma long_sum_143: "binary64 (double 5585899989275498 8 + double 5035177455121576 1) = double 5625237313143635 8"
  by (rule binary64_eq) (simp_all add: double_def power_int_minus)

lemma long_sum_144: "binary64 (double 5625237313143635 8 + double 5035177455121576 1) = double 5664574637011772 8"
  by (rule binary64_eq) (simp_all add: double_def power_int_minus)

lemma long_sum_145: "binary64 (double 5664574637011772 8 + double 5035177455121576 1) = double 5703911960879909 8"
  by (rule binary64_eq) (simp_all add: double_def power_int_minus)

lemma long_sum_146: "binary64 (double 5703911960879909 8 + double 5035177455121576 1) = double 5743249284748046 8"
  by (rule binary64_eq) (simp_all add: double_def power_int_minus)

lemma long_sum_147: "binary64 (double 5743249284748046 8 + double 5035177455121576 1) = double 5782586608616183 8"
  by (rule binary64_eq) (simp_all add: double_def power_int_minus)

lemma long_sum_148: "binary64 (double 5782586608616183 8 + double 5035177455121576 1) = double 5821923932484320 8"
  by (rule binary64_eq) (simp_all add: double_def power_int_minus)

lemma long_sum_149: "binary64 (double 5821923932484320 8 + double 5035177455121576 1) = double 5861261256352457 8"
  by (rule binary64_eq) (simp_all add: double_def power_int_minus)

lemma long_sum_150: "binary64 (double 5861261256352457 8 + double 5035177455121576 1) = double 5900598580220594 8"
  by (rule binary64_eq) (simp_all add: double_def power_int_minus)

lemma long_sum_151: "binary64 (double 5900598580220594 8 + double 5035177455121576 1) = double 5939935904088731 8"
  by (rule binary64_eq) (simp_all add: double_def power_int_minus)

lemma long_sum_152: "binary64 (double 5939935904088731 8 + double 5035177455121576 1) = double 5979273227956868 8"
  by (rule binary64_eq) (simp_all add: double_def power_int_minus)

lemma long_sum_153: "binary64 (double 5979273227956868 8 + double 5035177455121576 1) = double 6018610551825005 8"
  by (rule binary64_eq) (simp_all add: double_def power_int_minus)

lemma long_sum_154: "binary64 (double 6018610551825005 8 + double 5035177455121576 1) = double 6057947875693142 8"
  by (rule binary64_eq) (simp_all add: double_def power_int_minus)

lemma long_sum_155: "binary64 (double 6057947875693142 8 + double 5035177455121576 1) = double 6097285199561279 8"
  by (rule binary64_eq) (simp_all add: double_def power_int_minus)

lemma long_sum_156: "binary64 (double 6097285199561279 8 + double 5035177455121576 1) = double 6136622523429416 8"
  by (rule binary64_eq) (simp_all add: double_def power_int_minus)

lemma long_sum_157: "binary64 (double 6136622523429416 8 + double 5035177455121576 1) = double 6175959847297553 8"
  by (rule binary64_eq) (simp_all add: double_def power_int_minus)

lemma long_sum_158: "binary64 (double 6175959847297553 8 + double 5035177455121576 1) = double 6215297171165690 8"
  by (rule binary64_eq) (simp_all add: double_def power_int_minus)

lemma long_sum_159: "binary64 (double 6215297171165690 8 + double 5035177455121576 1) = double 6254634495033827 8"
  by (rule binary64_eq) (simp_all add: double_def power_int_minus)

lemma long_sum_160: "binary64 (double 6254634495033827 8 + double 5035177455121576 1) = double 6293971818901964 8"
  by (rule binary64_eq) (simp_all add: double_def power_int_minus)

lemma long_sum_161: "binary64 (double 6293971818901964 8 + double 5035177455121576 1) = double 6333309142770101 8"
  by (rule binary64_eq) (simp_all add: double_def power_int_minus)

lemma long_sum_162: "binary64 (double 6333309142770101 8 + double 5035177455121576 1) = double 6372646466638238 8"
  by (rule binary64_eq) (simp_all add: double_def power_int_minus)

lemma long_sum_163: "binary64 (double 6372646466638238 8 + double 5035177455121576 1) = double 6411983790506375 8"
  by (rule binary64_eq) (simp_all add: double_def power_int_minus)

lemma long_sum_164: "binary64 (double 6411983790506375 8 + double 5035177455121576 1) = double 6451321114374512 8"
  by (rule binary64_eq) (simp_all add: double_def power_int_minus)

lemma long_sum_165: "binary64 (double 6451321114374512 8 + double 5035177455121576 1) = double 6490658438242649 8"
  by (rule binary64_eq) (simp_all add: double_def power_int_minus)

lemma long_sum_166: "binary64 (double 6490658438242649 8 + double 5035177455121576 1) = double 6529995762110786 8"
  by (rule binary64_eq) (simp_all add: double_def power_int_minus)

lemma long_sum_167: "binary64 (double 6529995762110786 8 + double 5035177455121576 1) = double 6569333085978923 8"
  by (rule binary64_eq) (simp_all add: double_def power_int_minus)

lemma long_sum_168: "binary64 (double 6569333085978923 8 + double 5035177455121576 1) = double 6608670409847060 8"
  by (rule binary64_eq) (simp_all add: double_def power_int_minus)

lemma long_sum_169: "binary64 (double 6608670409847060 8 + double 5035177455121576 1) = double 6648007733715197 8"
  by (rule binary64_eq) (simp_all add: double_def power_int_minus)

lemma long_sum_170: "binary64 (double 6648007733715197 8 + double 5035177455121576 1) = double 6687345057583334 8"
  by (rule binary64_eq) (simp_all add: double_def power_int_minus)

lemma long_sum_171: "binary64 (double 6687345057583334 8 + double 5035177455121576 1) = double 6726682381451471 8"
  by (rule binary64_eq) (simp_all add: double_def power_int_minus)

lemma long_sum_172: "binary64 (double 6726682381451471 8 + double 5035177455121576 1) = double 6766019705319608 8"
  by (rule binary64_eq) (simp_all add: double_def power_int_minus)

lemma long_sum_173: "binary64 (double 6766019705319608 8 + double 5035177455121576 1) = double 6805357029187745 8"
  by (rule binary64_eq) (simp_all add: double_def power_int_minus)

lemma long_sum_174: "binary64 (double 6805357029187745 8 + double 5035177455121576 1) = double 6844694353055882 8"
  by (rule binary64_eq) (simp_all add: double_def power_int_minus)

lemma long_sum_175: "binary64 (double 6844694353055882 8 + double 5035177455121576 1) = double 6884031676924019 8"
  by (rule binary64_eq) (simp_all add: double_def power_int_minus)

lemma long_sum_176: "binary64 (double 6884031676924019 8 + double 5035177455121576 1) = double 6923369000792156 8"
  by (rule binary64_eq) (simp_all add: double_def power_int_minus)

lemma long_sum_177: "binary64 (double 6923369000792156 8 + double 5035177455121576 1) = double 6962706324660293 8"
  by (rule binary64_eq) (simp_all add: double_def power_int_minus)

lemma long_sum_178: "binary64 (double 6962706324660293 8 + double 5035177455121576 1) = double 7002043648528430 8"
  by (rule binary64_eq) (simp_all add: double_def power_int_minus)

lemma long_sum_179: "binary64 (double 7002043648528430 8 + double 5035177455121576 1) = double 7041380972396567 8"
  by (rule binary64_eq) (simp_all add: double_def power_int_minus)

lemma long_sum_180: "binary64 (double 7041380972396567 8 + double 5035177455121576 1) = double 7080718296264704 8"
  by (rule binary64_eq) (simp_all add: double_def power_int_minus)

lemma long_sum_181: "binary64 (double 7080718296264704 8 + double 5035177455121576 1) = double 7120055620132841 8"
  by (rule binary64_eq) (simp_all add: double_def power_int_minus)

lemma long_sum_182: "binary64 (double 7120055620132841 8 + double 5035177455121576 1) = double 7159392944000978 8"
  by (rule binary64_eq) (simp_all add: double_def power_int_minus)

lemma long_sum_183: "binary64 (double 7159392944000978 8 + double 5035177455121576 1) = double 7198730267869115 8"
  by (rule binary64_eq) (simp_all add: double_def power_int_minus)

lemma long_sum_184: "binary64 (double 7198730267869115 8 + double 5035177455121576 1) = double 7238067591737252 8"
  by (rule binary64_eq) (simp_all add: double_def power_int_minus)

lemma long_sum_185: "binary64 (double 7238067591737252 8 + double 5035177455121576 1) = double 7277404915605389 8"
  by (rule binary64_eq) (simp_all add: double_def power_int_minus)

lemma long_sum_186: "binary64 (double 7277404915605389 8 + double 5035177455121576 1) = double 7316742239473526 8"
  by (rule binary64_eq) (simp_all add: double_def power_int_minus)

lemma long_sum_187: "binary64 (double 7316742239473526 8 + double 5035177455121576 1) = double 7356079563341663 8"
  by (rule binary64_eq) (simp_all add: double_def power_int_minus)

lemma long_sum_188: "binary64 (double 7356079563341663 8 + double 5035177455121576 1) = double 7395416887209800 8"
  by (rule binary64_eq) (simp_all add: double_def power_int_minus)

lemma long_sum_189: "binary64 (double 7395416887209800 8 + double 5035177455121576 1) = double 7434754211077937 8"
  by (rule binary64_eq) (simp_all add: double_def power_int_minus)

lemma long_sum_190: "binary64 (double 7434754211077937 8 + double 5035177455121576 1) = double 7474091534946074 8"
  by (rule binary64_eq) (simp_all add: double_def power_int_minus)

lemma long_sum_191: "binary64 (double 7474091534946074 8 + double 5035177455121576 1) = double 7513428858814211 8"
  by (rule binary64_eq) (simp_all add: double_def power_int_minus)

lemma long_sum_192: "binary64 (double 7513428858814211 8 + double 5035177455121576 1) = double 7552766182682348 8"
  by (rule binary64_eq) (simp_all add: double_def power_int_minus)

lemma long_sum_193: "binary64 (double 7552766182682348 8 + double 5035177455121576 1) = double 7592103506550485 8"
  by (rule binary64_eq) (simp_all add: double_def power_int_minus)

lemma long_sum_194: "binary64 (double 7592103506550485 8 + double 5035177455121576 1) = double 7631440830418622 8"
  by (rule binary64_eq) (simp_all add: double_def power_int_minus)

lemma long_sum_195: "binary64 (double 7631440830418622 8 + double 5035177455121576 1) = double 7670778154286759 8"
  by (rule binary64_eq) (simp_all add: double_def power_int_minus)

lemma long_sum_196: "binary64 (double 7670778154286759 8 + double 5035177455121576 1) = double 7710115478154896 8"
  by (rule binary64_eq) (simp_all add: double_def power_int_minus)

lemma long_sum_197: "binary64 (double 7710115478154896 8 + double 5035177455121576 1) = double 7749452802023033 8"
  by (rule binary64_eq) (simp_all add: double_def power_int_minus)

lemma long_sum_198: "binary64 (double 7749452802023033 8 + double 5035177455121576 1) = double 7788790125891170 8"
  by (rule binary64_eq) (simp_all add: double_def power_int_minus)

lemma long_sum_199: "binary64 (double 7788790125891170 8 + double 5035177455121576 1) = double 7828127449759307 8"
  by (rule binary64_eq) (simp_all add: double_def power_int_minus)

lemma long_sum_200: "binary64 (double 7828127449759307 8 + double 5035177455121576 1) = double 7867464773627444 8"
  by (rule binary64_eq) (simp_all add: double_def power_int_minus)

lemmas long_sums =
  long_sum_1 long_sum_2 long_sum_3 long_sum_4 long_sum_5 long_sum_6
  long_sum_7 long_sum_8 long_sum_9 long_sum_10 long_sum_11 long_sum_12
  long_sum_13 long_sum_14 long_sum_15 long_sum_16 long_sum_17 long_sum_18
  long_sum_19 long_sum_20 long_sum_21 long_sum_22 long_sum_23 long_sum_24
  long_sum_25 long_sum_26 long_sum_27 long_sum_28 long_sum_29 long_sum_30
  long_sum_31 long_sum_32 long_sum_33 long_sum_34 long_sum_35 long_sum_36
  long_sum_37 long_sum_38 long_sum_39 long_sum_40 long_sum_41 long_sum_42
  long_sum_43 long_sum_44 long_sum_45 long_sum_46 long_sum_47 long_sum_48
  long_sum_49 long_sum_50 long_sum_51 long_sum_52 long_sum_53 long_sum_54
  long_sum_55 long_sum_56 long_sum_57 long_sum_58 long_sum_59 long_sum_60
  long_sum_61 long_sum_62 long_sum_63 long_sum_64 long_sum_65 long_sum_66
  long_sum_67 long_sum_68 long_sum_69 long_sum_70 long_sum_71 long_sum_72
  long_sum_73 long_sum_74 long_sum_75 long_sum_76 long_sum_77 long_sum_78
  long_sum_79 long_sum_80 long_sum_81 long_sum_82 long_sum_83 long_sum_84
  long_sum_85 long_sum_86 long_sum_87 long_sum_88 long_sum_89 long_sum_90
  long_sum_91 long_sum_92 long_sum_93 long_sum_94 long_sum_95 long_sum_96
  long_sum_97 long_sum_98 long_sum_99 long_sum_100 long_sum_101 long_sum_102
  long_sum_103 long_sum_104 long_sum_105 long_sum_106 long_sum_107 long_sum_108
  long_sum_109 long_sum_110 long_sum_111 long_sum_112 long_sum_113 long_sum_114
  long_sum_115 long_sum_116 long_sum_117 long_sum_118 long_sum_119 long_sum_120
  long_sum_121 long_sum_122 long_sum_123 long_sum_124 long_sum_125 long_sum_126
  long_sum_127 long_sum_128 long_sum_129 long_sum_130 long_sum_131 long_sum_132
  long_sum_133 long_sum_134 long_sum_135 long_sum_136 long_sum_137 long_sum_138
  long_sum_139 long_sum_140 long_sum_141 long_sum_142 long_sum_143 long_sum_144
  long_sum_145 long_sum_146 long_sum_147 long_sum_148 long_sum_149 long_sum_150
  long_sum_151 long_sum_152 long_sum_153 long_sum_154 long_sum_155 long_sum_156
  long_sum_157 long_sum_158 long_sum_159 long_sum_160 long_sum_161 long_sum_162
  long_sum_163 long_sum_164 long_sum_165 long_sum_166 long_sum_167 long_sum_168
  long_sum_169 long_sum_170 long_sum_171 long_sum_172 long_sum_173 long_sum_174
  long_sum_175 long_sum_176 long_sum_177 long_sum_178 long_sum_179 long_sum_180
  long_sum_181 long_sum_182 long_sum_183 long_sum_184 long_sum_185 long_sum_186
  long_sum_187 long_sum_188 long_sum_189 long_sum_190 long_sum_191 long_sum_192
  long_sum_193 long_sum_194 long_sum_195 long_sum_196 long_sum_197 long_sum_198
  long_sum_199 long_sum_200

lemma long_interval: "binary64 (double 7867464773627444 8 / 200) = double 5035177455121564 1"
  by (rule binary64_eq) (simp_all add: double_def power_int_minus)

lemma long_interval_less: "double 5035177455121564 1 < double 5035177455121576 1"
  by (simp add: double_def power_int_minus)

lemma long_total:
  "roundedSum binary64 0 (replicate 200 (double 5035177455121576 1)) = double 7867464773627444 8"
  by (simp only: eval_nat_numeral BitM.simps One_nat_def replicate.simps roundedSum.simps
        long_sums)


lemma long_separation:
  "calculateCoordinateSeparation binary64 (real (Suc k), 2 * real (Suc k)) (real k, 2 * real k) =
     double 5035177455121576 1"
  by (simp add: calculateCoordinateSeparation_def algebra_simps binary64_integers binary64_2
      binary64_sqrt_5)

lemma long_distances:
  "withDistances binary64 (real k, 2 * real k)
       (map (\<lambda>j. (real j, 2 * real j)) [Suc k..<Suc k + n]) =
     map (\<lambda>j. \<lparr>longitude = real j, latitude = 2 * real j,
                distance = double 5035177455121576 1\<rparr>) [Suc k..<Suc k + n]"
proof (induction n arbitrary: k)
  case 0
  show ?case by simp
next
  case (Suc n)
  have "[Suc k..<Suc k + Suc n] = Suc k # [Suc (Suc k)..<Suc (Suc k) + n]"
    by (simp add: upt_conv_Cons)
  then show ?case using Suc[of "Suc k"] long_separation[of k] by simp
qed

lemma keepLoop_all:
  assumes "\<forall>c \<in> set cs. exceedsInterval rnd (rnd (distance c)) t f"
  shows "keepLoop rnd t f 0 cs = cs"
  using assms by (induction cs) simp_all

lemma long_condensed:
  "condensePolygon binary64 default_constants False 0 (Some longRing) =
     Inr (\<lparr>longitude = 0, latitude = 0, distance = 0\<rparr>
          # map (\<lambda>j. \<lparr>longitude = real j, latitude = 2 * real j,
                       distance = double 5035177455121576 1\<rparr>) [1..<201])"
proof -
  let ?d = "double 5035177455121576 1"
  let ?cs = "map (\<lambda>j. \<lparr>longitude = real j, latitude = 2 * real j, distance = ?d\<rparr>) [1..<201]"
  have ring: "longRing = (0, 0) # map (\<lambda>j. (real j, 2 * real j)) [1..<201]"
    unfolding longRing_def by (subst upt_conv_Cons) simp_all
  have w: "withDistances binary64 (0, 0) (map (\<lambda>j. (real j, 2 * real j)) [1..<201]) = ?cs"
    using long_distances[of 0 200] by simp
  have f: "frequency default_constants False 0 = 200"
    by (simp add: frequency_def default_constants_def)
  have "map distance ?cs = replicate 200 ?d"
    by (simp add: map_replicate_const comp_def)
  then have t: "roundedSum binary64 0 (map distance ?cs) = double 7867464773627444 8"
    using long_total by simp
  have fixed: "binary64 ?d = ?d" using long_sum_1 by simp
  have "\<forall>c \<in> set ?cs. exceedsInterval binary64 (binary64 (distance c))
           (double 7867464773627444 8) 200"
    by (auto simp: exceedsInterval_def fixed long_interval long_interval_less)
  then have k: "keepLoop binary64 (double 7867464773627444 8) 200 0 ?cs = ?cs"
    by (rule keepLoop_all)
  show ?thesis
    unfolding ring condensePolygon_Cons w f t binary64_0 k by simp
qed

text \<open>
  C5. The claim bounds a condensed ring by its frequency \<open>f\<close>, as the comment on
  \<open>DISTANCE_INTERVAL_FREQUENCY\<close> does (the value will be the maximum number of points).
  The code, run in doubles on the MultiPolygon \<open>islands\<close>, returns rings of 1, 1 and 11
  points: the third ring has index 2, so \<open>f = 10\<close>, and all of its 11 points are kept.
  Each of its ten segments has the length of the double nearest to \<open>sqrt 10\<close>; the
  rounded total is smaller than ten times that double, so the interval, a tenth of the
  total, lies below every single segment. In the same way the Polygon of the one ring
  \<open>longRing\<close>, condensed with \<open>f = 200\<close>, keeps all of its 201 points.
\<close>

theorem double_precision_exceeds_frequency:
  "(\<exists>outs. condenseCoordinates binary64 default_constants (MultiPolygon islands) = Inr outs \<and>
           map length outs = [1, 1, 11]) \<and>
   (\<exists>out. condenseCoordinates binary64 default_constants (Polygon [longRing]) = Inr [out] \<and>
          length out = 201)"
proof
  show "\<exists>outs. condenseCoordinates binary64 default_constants (MultiPolygon islands) = Inr outs \<and>
          map length outs = [1, 1, 11]"
    by (simp add: islands_condensed line_distances)
  show "\<exists>out. condenseCoordinates binary64 default_constants (Polygon [longRing]) = Inr [out] \<and>
          length out = 201"
    by (simp add: condenseCoordinates_def rawCoordinates_def firstRing_def isMultiPolygon_def
        long_condensed)
qed

end
